theory Spec2Isabelle
  imports Main "HOL-Library.Char_ord" "HOL-Library.List_Lexorder"
begin

section \<open>Tables of a DXF tables section (ezdxf/table.py)\<close>

text \<open>
  A shallow embedding of the class \<^verbatim>\<open>Table\<close> and its variant \<^verbatim>\<open>ViewportTable\<close>.
  A method that only reads is a function of the table; a method that mutates returns the
  table it leaves behind next to its result, also when it raises: a Python exception
  does not roll back what was assigned before it.
\<close>

subsection \<open>Tags and exceptions\<close>

text \<open>
  The value of a tag is a string or an integer (the entry count written by
  \<^verbatim>\<open>_update_meta_data\<close> is an integer). \<^verbatim>\<open>DXFTag\<close> is the pair of group code and value,
  \<^verbatim>\<open>Tags\<close> a list of them.
\<close>

datatype dxfvalue = StrVal string | IntVal int

datatype dxftag = DXFTag (code: int) (tagval: dxfvalue)

type_synonym tags = "dxftag list"

type_synonym handle = string

text \<open>
  The exceptions. \<open>ValueError\<close>, \<open>KeyError\<close>, \<open>IndexError\<close>, \<open>AssertionError\<close> and
  \<open>AttributeError\<close> are the Python exceptions that table.py raises itself or meets in the
  list and dict operations it uses. The argument of \<open>ValueError\<close> lists the values its
  message is made of (the message text itself is not modelled), the argument of
  \<open>KeyError\<close> is the missing key. \<open>FieldNotFound\<close>, \<open>ValidationError\<close> and
  \<open>UnknownTypeError\<close> are the failures the specification gives to the collaborators
  (tag update, entity factory); none of them is taken to be a \<open>ValueError\<close>.
\<close>

datatype error =
    ValueError "dxfvalue list"
  | KeyError string
  | IndexError
  | AssertionError
  | AttributeError
  | FieldNotFound
  | ValidationError
  | UnknownTypeError

text \<open>Python indexing \<^verbatim>\<open>xs[i]\<close>: a negative index counts from the end, an index out of
  range raises IndexError.\<close>

definition py_index :: "'a list \<Rightarrow> int \<Rightarrow> error + 'a" where
  "py_index xs i =
     (let n = int (length xs); j = (if i < 0 then i + n else i)
      in if j < 0 \<or> n \<le> j then Inl IndexError else Inr (xs ! nat j))"

subsection \<open>The tag grouper\<close>

text \<open>
  Modelled from the spec: the class \<^verbatim>\<open>TagGroups\<close> of ezdxf/tags.py is not among the
  sources. Section 4.1: scan linearly; a tag with code 0 starts a new group named by that
  tag's value; the tags that follow belong to the current group until the next tag with
  code 0. A tag met before any group was started has no current group to join.
  \<open>tag_groups_scan finished cur ts\<close> holds the finished groups, the group being filled (if
  one was started) and the tags still to read.
\<close>

fun tag_groups_scan :: "tags list \<Rightarrow> tags option \<Rightarrow> tags \<Rightarrow> tags list" where
  "tag_groups_scan finished cur [] =
     (case cur of None \<Rightarrow> finished | Some g \<Rightarrow> finished @ [g])"
| "tag_groups_scan finished cur (t # ts) =
     (if code t = 0 then
        tag_groups_scan (case cur of None \<Rightarrow> finished | Some g \<Rightarrow> finished @ [g]) (Some [t]) ts
      else
        (case cur of
           None \<Rightarrow> tag_groups_scan finished None ts
         | Some g \<Rightarrow> tag_groups_scan finished (Some (g @ [t])) ts))"

definition TagGroups :: "tags \<Rightarrow> tags list" where
  "TagGroups ts = tag_groups_scan [] None ts"

text \<open>Modelled from the spec: \<^verbatim>\<open>groups.getname(index)\<close>, the value of the marker tag that
  starts the group at a position (section 3: the name of a group is the value of its
  first tag).\<close>

definition getname :: "tags list \<Rightarrow> int \<Rightarrow> error + dxfvalue" where
  "getname groups i =
     (case py_index groups i of
        Inl e \<Rightarrow> Inl e
      | Inr g \<Rightarrow> (case py_index g 0 of Inl e \<Rightarrow> Inl e | Inr t \<Rightarrow> Inr (tagval t)))"

subsection \<open>Extended tags\<close>

text \<open>
  Modelled from the spec: the class \<^verbatim>\<open>ExtendedTags\<close> of ezdxf/tags.py is not among the
  sources. Section 3: a sequence \<open>common\<close> of the tags outside every subclass, and
  \<open>subclasses\<close>, a mapping from subclass name to tag sequence, in the order of first
  appearance (the attribute that table.py reads as \<^verbatim>\<open>.subclass\<close>).
\<close>

record extags =
  common :: tags
  subclasses :: "(string \<times> tags) list"

text \<open>
  Modelled from the spec: \<^verbatim>\<open>Tags.update(code, value)\<close>, section 4.2: the field is located
  by its code and its value replaced in place, the position kept; an absent field is the
  failure FieldNotFound, nothing is appended.
\<close>

fun tags_update :: "int \<Rightarrow> dxfvalue \<Rightarrow> tags \<Rightarrow> error + tags" where
  "tags_update c v [] = Inl FieldNotFound"
| "tags_update c v (t # ts) =
     (if code t = c then Inr (DXFTag c v # ts)
      else (case tags_update c v ts of Inl e \<Rightarrow> Inl e | Inr ts' \<Rightarrow> Inr (t # ts')))"

text \<open>The first value stored under a group code, if there is one.\<close>

fun tags_find :: "int \<Rightarrow> tags \<Rightarrow> dxfvalue option" where
  "tags_find c [] = None"
| "tags_find c (t # ts) = (if code t = c then Some (tagval t) else tags_find c ts)"

text \<open>\<^verbatim>\<open>header.update(code, value)\<close>: the update in the scope \<open>common\<close>.\<close>

definition extags_update :: "int \<Rightarrow> dxfvalue \<Rightarrow> extags \<Rightarrow> error + extags" where
  "extags_update c v x =
     (case tags_update c v (common x) of
        Inl e \<Rightarrow> Inl e
      | Inr ts \<Rightarrow> Inr (x\<lparr>common := ts\<rparr>))"

text \<open>Replacing the sequence stored under a subclass name, the position kept.\<close>

fun subclasses_store :: "string \<Rightarrow> tags \<Rightarrow> (string \<times> tags) list \<Rightarrow> (string \<times> tags) list" where
  "subclasses_store k ts [] = []"
| "subclasses_store k ts ((k', ts') # rest) =
     (if k' = k then (k, ts) # rest else (k', ts') # subclasses_store k ts rest)"

text \<open>\<^verbatim>\<open>header.subclass[key].update(code, value)\<close>: the dict lookup raises KeyError for a
  subclass that is absent; the update then works on the sequence found there.\<close>

definition subclass_update :: "string \<Rightarrow> int \<Rightarrow> dxfvalue \<Rightarrow> extags \<Rightarrow> error + extags" where
  "subclass_update k c v x =
     (case map_of (subclasses x) k of
        None \<Rightarrow> Inl (KeyError k)
      | Some ts \<Rightarrow>
          (case tags_update c v ts of
             Inl e \<Rightarrow> Inl e
           | Inr ts' \<Rightarrow> Inr (x\<lparr>subclasses := subclasses_store k ts' (subclasses x)\<rparr>)))"

subsection \<open>Entries, the drawing and the collaborators\<close>

text \<open>
  What table.py reads of an entry that the entity factory hands out: its \<^verbatim>\<open>name\<close>, its
  \<^verbatim>\<open>handle\<close> and its \<^verbatim>\<open>tags\<close>.
\<close>

record entry =
  entry_name :: string
  entry_handle :: handle
  entry_tags :: extags

type_synonym attribs = "string \<rightharpoonup> dxfvalue"

text \<open>
  Modelled from the spec: the drawing, its entity database and its handle allocator are
  not among the sources. What a table reaches through \<^verbatim>\<open>self._drawing\<close> is the entity
  database, the allocator and the DXF version. Section 6: the database maps a handle to
  the tags stored under it, with get, set and delete, and get and delete fail for a handle
  it does not hold (it is taken to be a Python dict, whose failure is KeyError); the
  allocator issues a handle at every \<^verbatim>\<open>next\<close> and never fails, and its state \<open>handles\<close> is
  the count of the handles issued so far.
\<close>

record drawing =
  entitydb :: "handle \<rightharpoonup> extags"
  handles :: nat
  dxfversion :: string

text \<open>
  The collaborators whose code is not among the sources are parameters of the model:
  \<^item> \<open>handle_of k\<close>: the handle the allocator issues as its \<open>k\<close>-th;
  \<^item> \<open>new_entity\<close>, \<open>wrap_entity\<close>: the entity factory (\<^verbatim>\<open>dxffactory\<close>);
  \<^item> \<open>extended_tags\<close>: the constructor \<^verbatim>\<open>ExtendedTags(tags)\<close>;
  \<^item> \<open>gethandle\<close>: \<^verbatim>\<open>tags.gethandle(handles)\<close>, which is given the allocator and may
    change the tags and the allocator (the result holds both as they are left);
  \<^item> \<open>write_tags\<close>: the text that \<^verbatim>\<open>tags.write(stream)\<close> appends to the stream.
\<close>

record collab =
  handle_of :: "nat \<Rightarrow> handle"
  new_entity :: "dxfvalue \<Rightarrow> handle \<Rightarrow> attribs \<Rightarrow> error + entry"
  wrap_entity :: "extags \<Rightarrow> error + entry"
  extended_tags :: "tags \<Rightarrow> extags"
  gethandle :: "extags \<Rightarrow> nat \<Rightarrow> (error + handle) \<times> extags \<times> nat"
  write_tags :: "extags \<Rightarrow> string"

text \<open>Modelled from the spec: \<^verbatim>\<open>self.handles.next\<close> (section 6), the handle issued and the
  drawing with the allocator advanced.\<close>

definition handles_next :: "collab \<Rightarrow> drawing \<Rightarrow> handle \<times> drawing" where
  "handles_next C d = (handle_of C (handles d), d\<lparr>handles := Suc (handles d)\<rparr>)"

subsection \<open>The class Table\<close>

text \<open>The attributes of a \<^verbatim>\<open>Table\<close> object: \<^verbatim>\<open>_dxfname\<close>, \<^verbatim>\<open>_drawing\<close>,
  \<^verbatim>\<open>_table_entries\<close> and \<^verbatim>\<open>_table_header\<close> (\<^verbatim>\<open>None\<close> until the header is built).\<close>

record table =
  dxfname :: dxfvalue
  drawing :: drawing
  table_entries :: "handle list"
  table_header :: "extags option"

text \<open>\<^verbatim>\<open>__len__\<close>\<close>

definition Table_len :: "table \<Rightarrow> nat" where
  "Table_len t = length (table_entries t)"

text \<open>\<^verbatim>\<open>get_table_entry_wrapper(handle)\<close>: the dict lookup raises KeyError for a handle the
  database does not hold.\<close>

definition Table_get_table_entry_wrapper :: "collab \<Rightarrow> table \<Rightarrow> handle \<Rightarrow> error + entry" where
  "Table_get_table_entry_wrapper C t h =
     (case entitydb (drawing t) h of
        None \<Rightarrow> Inl (KeyError h)
      | Some x \<Rightarrow> wrap_entity C x)"

text \<open>\<^verbatim>\<open>__iter__\<close>: the generator yields one wrapper per handle, in the order of
  \<^verbatim>\<open>_table_entries\<close>; each element is the outcome of resolving that handle, and a consumer
  that meets a raised exception stops there.\<close>

definition Table_iter :: "collab \<Rightarrow> table \<Rightarrow> (error + entry) list" where
  "Table_iter C t = map (Table_get_table_entry_wrapper C t) (table_entries t)"

text \<open>\<^verbatim>\<open>get_entry(name)\<close>: the first entry of the iteration whose name is \<open>n\<close>;
  \<^verbatim>\<open>ValueError(name)\<close> when the iteration ends without one.\<close>

fun get_entry_scan :: "string \<Rightarrow> (error + entry) list \<Rightarrow> error + entry" where
  "get_entry_scan n [] = Inl (ValueError [StrVal n])"
| "get_entry_scan n (Inl e # rest) = Inl e"
| "get_entry_scan n (Inr x # rest) = (if entry_name x = n then Inr x else get_entry_scan n rest)"

definition Table_get_entry :: "collab \<Rightarrow> string \<Rightarrow> table \<Rightarrow> error + entry" where
  "Table_get_entry C n t = get_entry_scan n (Table_iter C t)"

text \<open>\<^verbatim>\<open>entry_exists(name)\<close>: only a ValueError is caught.\<close>

definition Table_entry_exists :: "collab \<Rightarrow> string \<Rightarrow> table \<Rightarrow> error + bool" where
  "Table_entry_exists C n t =
     (case Table_get_entry C n t of
        Inr x \<Rightarrow> Inr True
      | Inl (ValueError vs) \<Rightarrow> Inr False
      | Inl e \<Rightarrow> Inl e)"

text \<open>\<^verbatim>\<open>get(name)\<close> and \<^verbatim>\<open>__contains__(name)\<close>\<close>

definition Table_get :: "collab \<Rightarrow> string \<Rightarrow> table \<Rightarrow> error + entry" where
  "Table_get C n t = Table_get_entry C n t"

definition Table_contains :: "collab \<Rightarrow> string \<Rightarrow> table \<Rightarrow> error + bool" where
  "Table_contains C n t = Table_entry_exists C n t"

text \<open>The two assignments that end \<^verbatim>\<open>_add_entry\<close>: \<^verbatim>\<open>self.entitydb[handle] = tags\<close> and
  \<^verbatim>\<open>self._table_entries.append(handle)\<close>.\<close>

definition store_entry :: "handle \<Rightarrow> extags \<Rightarrow> table \<Rightarrow> table" where
  "store_entry h x t =
     t\<lparr>drawing := (drawing t)\<lparr>entitydb := (entitydb (drawing t))(h \<mapsto> x)\<rparr>,
       table_entries := table_entries t @ [h]\<rparr>"

text \<open>\<^verbatim>\<open>_add_entry(entry)\<close>: the argument is an instance of \<^verbatim>\<open>Tags\<close> (the extended tags of a
  loaded entry) or an entry of the factory.\<close>

datatype entry_arg = TagsArg extags | EntryArg entry

definition Table_add_entry :: "collab \<Rightarrow> entry_arg \<Rightarrow> table \<Rightarrow> (error + unit) \<times> table" where
  "Table_add_entry C arg t =
     (case arg of
        TagsArg x \<Rightarrow>
          (case gethandle C x (handles (drawing t)) of
             (Inl e, x', k) \<Rightarrow> (Inl e, t\<lparr>drawing := (drawing t)\<lparr>handles := k\<rparr>\<rparr>)
           | (Inr h, x', k) \<Rightarrow>
               (Inr (), store_entry h x' (t\<lparr>drawing := (drawing t)\<lparr>handles := k\<rparr>\<rparr>)))
      | EntryArg e \<Rightarrow> (Inr (), store_entry (entry_handle e) (entry_tags e) t))"

text \<open>\<^verbatim>\<open>new_entry(attribs)\<close>\<close>

definition Table_new_entry :: "collab \<Rightarrow> attribs \<Rightarrow> table \<Rightarrow> (error + entry) \<times> table" where
  "Table_new_entry C a t =
     (let (h, d) = handles_next C (drawing t);
          t1 = t\<lparr>drawing := d\<rparr>
      in case new_entity C (dxfname t1) h a of
           Inl e \<Rightarrow> (Inl e, t1)
         | Inr entry \<Rightarrow>
             (case Table_add_entry C (EntryArg entry) t1 of
                (Inl e, t2) \<Rightarrow> (Inl e, t2)
              | (Inr u, t2) \<Rightarrow> (Inr entry, t2)))"

text \<open>
  \<^verbatim>\<open>create(name, attribs=None)\<close>. Python hands the dict \<^verbatim>\<open>attribs\<close> over by reference, so
  the assignment \<^verbatim>\<open>attribs['name'] = name\<close> is seen by the caller: the middle component
  of the result is the caller's mapping as the call leaves it (\<open>None\<close> when the caller
  passed none, and the dict made by \<^verbatim>\<open>attribs = {}\<close> is the call's own).
\<close>

definition Table_create ::
  "collab \<Rightarrow> string \<Rightarrow> attribs option \<Rightarrow> table \<Rightarrow> (error + entry) \<times> attribs option \<times> table" where
  "Table_create C n attribs t =
     (case Table_contains C n t of
        Inl e \<Rightarrow> (Inl e, attribs, t)
      | Inr True \<Rightarrow> (Inl (ValueError [dxfname t, StrVal n]), attribs, t)
      | Inr False \<Rightarrow>
          (let a = (case attribs of None \<Rightarrow> Map.empty | Some a0 \<Rightarrow> a0);
               a' = a(''name'' \<mapsto> StrVal n);
               (r, t') = Table_new_entry C a' t
           in (r, map_option (\<lambda>a0. a') attribs, t')))"

text \<open>
  \<^verbatim>\<open>remove_entry(name)\<close>. \<^verbatim>\<open>list.remove(handle)\<close> takes out the first occurrence of the
  handle and raises ValueError when there is none; \<^verbatim>\<open>del self.entitydb[handle]\<close> raises
  KeyError for a handle the database does not hold, and by then the list has changed.
\<close>

definition Table_remove_entry :: "collab \<Rightarrow> string \<Rightarrow> table \<Rightarrow> (error + unit) \<times> table" where
  "Table_remove_entry C n t =
     (case Table_get_entry C n t of
        Inl e \<Rightarrow> (Inl e, t)
      | Inr x \<Rightarrow>
          (let h = entry_handle x in
           if h \<notin> set (table_entries t) then (Inl (ValueError []), t)
           else
             (let t1 = t\<lparr>table_entries := remove1 h (table_entries t)\<rparr> in
              case entitydb (drawing t1) h of
                None \<Rightarrow> (Inl (KeyError h), t1)
              | Some x' \<Rightarrow>
                  (Inr (), t1\<lparr>drawing := (drawing t1)\<lparr>entitydb := (entitydb (drawing t1))(h := None)\<rparr>\<rparr>))))"

text \<open>\<^verbatim>\<open>remove(name)\<close>\<close>

definition Table_remove :: "collab \<Rightarrow> string \<Rightarrow> table \<Rightarrow> (error + unit) \<times> table" where
  "Table_remove C n t = Table_remove_entry C n t"

text \<open>The loop of \<^verbatim>\<open>_build_table_entries\<close> over the entry groups; it ends at the first
  exception.\<close>

fun add_entries :: "collab \<Rightarrow> tags list \<Rightarrow> table \<Rightarrow> (error + unit) \<times> table" where
  "add_entries C [] t = (Inr (), t)"
| "add_entries C (g # gs) t =
     (case Table_add_entry C (TagsArg (extended_tags C g)) t of
        (Inl e, t') \<Rightarrow> (Inl e, t')
      | (Inr u, t') \<Rightarrow> add_entries C gs t')"

text \<open>
  \<^verbatim>\<open>_build_table_entries(tags)\<close>: the two assertions on the names of the first and the
  last group, then the header from \<^verbatim>\<open>groups[0][1:]\<close> and one entry for each group of
  \<^verbatim>\<open>groups[1:-1]\<close>. An \<^verbatim>\<open>assert\<close> that fails raises AssertionError (Python run with
  assertions on, its default).
\<close>

definition Table_build_table_entries :: "collab \<Rightarrow> tags \<Rightarrow> table \<Rightarrow> (error + unit) \<times> table" where
  "Table_build_table_entries C tgs t =
     (let groups = TagGroups tgs in
      case getname groups 0 of
        Inl e \<Rightarrow> (Inl e, t)
      | Inr first \<Rightarrow>
          if first \<noteq> StrVal ''TABLE'' then (Inl AssertionError, t)
          else
            (case getname groups (- 1) of
               Inl e \<Rightarrow> (Inl e, t)
             | Inr final \<Rightarrow>
                 if final \<noteq> StrVal ''ENDTAB'' then (Inl AssertionError, t)
                 else
                   (case py_index groups 0 of
                      Inl e \<Rightarrow> (Inl e, t)
                    | Inr g0 \<Rightarrow>
                        add_entries C (butlast (drop 1 groups))
                          (t\<lparr>table_header := Some (extended_tags C (drop 1 g0))\<rparr>))))"

text \<open>
  \<^verbatim>\<open>Table(tags, drawing)\<close>: \<^verbatim>\<open>tags[1].value\<close> is read first. A constructor that raises
  builds no table; what it leaves behind is the drawing, which is the caller's.
\<close>

definition Table_init :: "collab \<Rightarrow> tags \<Rightarrow> drawing \<Rightarrow> (error \<times> drawing) + table" where
  "Table_init C tgs d =
     (case py_index tgs 1 of
        Inl e \<Rightarrow> Inl (e, d)
      | Inr tg \<Rightarrow>
          (case Table_build_table_entries C tgs
                  \<lparr>dxfname = tagval tg, drawing = d, table_entries = [], table_header = None\<rparr> of
             (Inl e, t) \<Rightarrow> Inl (e, drawing t)
           | (Inr u, t) \<Rightarrow> Inr t))"

text \<open>\<^verbatim>\<open>_update_meta_data\<close>: the comparison of the version strings is Python's, character
  by character. A header that is \<^verbatim>\<open>None\<close> has no attribute to update.\<close>

definition Table_update_meta_data :: "table \<Rightarrow> (error + unit) \<times> table" where
  "Table_update_meta_data t =
     (let count = Table_len t in
      case table_header t of
        None \<Rightarrow> (Inl AttributeError, t)
      | Some header \<Rightarrow>
          (case (if dxfversion (drawing t) > ''AC1009''
                 then subclass_update ''AcDbSymbolTable'' 70 (IntVal (int count)) header
                 else extags_update 70 (IntVal (int count)) header) of
             Inl e \<Rightarrow> (Inl e, t)
           | Inr header' \<Rightarrow> (Inr (), t\<lparr>table_header := Some header'\<rparr>)))"

text \<open>\<^verbatim>\<open>_iter_table_entries_as_tags\<close>: the generator of the stored tags, one dict lookup
  per handle.\<close>

definition Table_iter_table_entries_as_tags :: "table \<Rightarrow> (error + extags) list" where
  "Table_iter_table_entries_as_tags t =
     map (\<lambda>h. case entitydb (drawing t) h of None \<Rightarrow> Inl (KeyError h) | Some x \<Rightarrow> Inr x)
       (table_entries t)"

text \<open>The inner function \<^verbatim>\<open>content\<close> of \<^verbatim>\<open>write\<close>: each element of the generator is
  written in turn, up to the first that raises. The stream is the text written so far.\<close>

fun write_content :: "collab \<Rightarrow> (error + extags) list \<Rightarrow> string \<Rightarrow> (error + unit) \<times> string" where
  "write_content C [] stream = (Inr (), stream)"
| "write_content C (Inl e # rest) stream = (Inl e, stream)"
| "write_content C (Inr x # rest) stream = write_content C rest (stream @ write_tags C x)"

text \<open>\<^verbatim>\<open>write(stream)\<close>: prologue, content, epilogue.\<close>

definition Table_write :: "collab \<Rightarrow> string \<Rightarrow> table \<Rightarrow> (error + unit) \<times> string \<times> table" where
  "Table_write C stream t =
     (let s1 = stream @ ''  0\<newline>TABLE\<newline>'' in
      case Table_update_meta_data t of
        (Inl e, t1) \<Rightarrow> (Inl e, s1, t1)
      | (Inr u, t1) \<Rightarrow>
          (case table_header t1 of
             None \<Rightarrow> (Inl AttributeError, s1, t1)
           | Some header \<Rightarrow>
               (case write_content C (Table_iter_table_entries_as_tags t1) (s1 @ write_tags C header) of
                  (Inl e, s2) \<Rightarrow> (Inl e, s2, t1)
                | (Inr u', s2) \<Rightarrow> (Inr (), s2 @ ''  0\<newline>ENDTAB\<newline>'', t1))))"

subsection \<open>The class ViewportTable\<close>

text \<open>\<^verbatim>\<open>ViewportTable.create(name, attribs=None)\<close>: as \<^verbatim>\<open>Table.create\<close> without the test
  for an entry of that name; every other method is inherited.\<close>

definition ViewportTable_create ::
  "collab \<Rightarrow> string \<Rightarrow> attribs option \<Rightarrow> table \<Rightarrow> (error + entry) \<times> attribs option \<times> table" where
  "ViewportTable_create C n attribs t =
     (let a = (case attribs of None \<Rightarrow> Map.empty | Some a0 \<Rightarrow> a0);
          a' = a(''name'' \<mapsto> StrVal n);
          (r, t') = Table_new_entry C a' t
      in (r, map_option (\<lambda>a0. a') attribs, t'))"

subsection \<open>Well-formed tables and the contracts of the collaborators\<close>

text \<open>Every member resolves: the database holds its handle and the factory wraps the
  tags stored there.\<close>

definition all_resolve :: "collab \<Rightarrow> table \<Rightarrow> bool" where
  "all_resolve C t = list_all (\<lambda>r. \<not> isl r) (Table_iter C t)"

text \<open>The invariant of section 3: every handle among the members has a record in the
  entity database.\<close>

definition members_live :: "table \<Rightarrow> bool" where
  "members_live t = list_all (\<lambda>h. entitydb (drawing t) h \<noteq> None) (table_entries t)"

text \<open>Every member resolves to an entry that reports the handle it is stored under.\<close>

definition own_handles :: "collab \<Rightarrow> table \<Rightarrow> bool" where
  "own_handles C t =
     list_all (\<lambda>h. case Table_get_table_entry_wrapper C t h of
                      Inl e \<Rightarrow> False
                    | Inr x \<Rightarrow> entry_handle x = h) (table_entries t)"

text \<open>The names of the members that resolve, in the order of the members.\<close>

fun names_of :: "(error + entry) list \<Rightarrow> string list" where
  "names_of [] = []"
| "names_of (Inl e # rest) = names_of rest"
| "names_of (Inr x # rest) = entry_name x # names_of rest"

definition member_names :: "collab \<Rightarrow> table \<Rightarrow> string list" where
  "member_names C t = names_of (Table_iter C t)"

text \<open>No handle that the allocator has yet to issue is a member.\<close>

definition handles_fresh :: "collab \<Rightarrow> table \<Rightarrow> bool" where
  "handles_fresh C t = (\<forall>k. handles (drawing t) \<le> k \<longrightarrow> handle_of C k \<notin> set (table_entries t))"

text \<open>
  The contract of the entity factory (sections 4.3 and 6): the entry made by
  \<^verbatim>\<open>new_entity\<close> has the handle it was given, and the wrapper of its tags has that handle
  and the name given under the key \<^verbatim>\<open>'name'\<close>.
\<close>

definition factory_ok :: "collab \<Rightarrow> bool" where
  "factory_ok C =
     (\<forall>k h a e. new_entity C k h a = Inr e \<longrightarrow>
        entry_handle e = h \<and>
        (\<exists>w. wrap_entity C (entry_tags e) = Inr w \<and> entry_handle w = h \<and>
             (\<forall>n. a ''name'' = Some (StrVal n) \<longrightarrow> entry_name w = n)))"

text \<open>The table that \<^verbatim>\<open>remove_entry\<close> leaves when it returns after finding an entry of
  handle \<open>h\<close>: the first occurrence of \<open>h\<close> is taken out of the members and the record
  under \<open>h\<close> is deleted from the entity database.\<close>

definition removed :: "handle \<Rightarrow> table \<Rightarrow> table" where
  "removed h t =
     t\<lparr>table_entries := remove1 h (table_entries t),
       drawing := (drawing t)\<lparr>entitydb := (entitydb (drawing t))(h := None)\<rparr>\<rparr>"

text \<open>The state in which \<^verbatim>\<open>create\<close> keeps names unique: every member resolves, no handle
  still to be issued is a member, and no two members have the same name.\<close>

definition names_inv :: "collab \<Rightarrow> table \<Rightarrow> bool" where
  "names_inv C t = (all_resolve C t \<and> handles_fresh C t \<and> distinct (member_names C t))"

text \<open>A caller that makes one \<^verbatim>\<open>create\<close> call after the other and goes on after a call
  that raised.\<close>

fun create_all :: "collab \<Rightarrow> (string \<times> attribs option) list \<Rightarrow> table \<Rightarrow> table" where
  "create_all C [] t = t"
| "create_all C ((n, a) # calls) t =
     (case Table_create C n a t of (r, a', t') \<Rightarrow> create_all C calls t')"

subsection \<open>A sample set of collaborators\<close>

text \<open>
  Collaborators in the manner of a DXF symbol table, for the concrete tables of the
  examples: the allocator issues the hexadecimal numerals 0, 1, 2, ...; an entry keeps
  its handle under group code 5 and its name under group code 2; all tags of a group are
  read into \<open>common\<close>, as for the formats that predate subclass markers; a tag is written
  as two lines, the group code and the value.
\<close>

definition hex_digit :: "nat \<Rightarrow> char" where
  "hex_digit d = ''0123456789ABCDEF'' ! d"

fun to_hex :: "nat \<Rightarrow> string" where
  "to_hex n = (if n < 16 then [hex_digit n] else to_hex (n div 16) @ [hex_digit (n mod 16)])"

fun to_dec :: "nat \<Rightarrow> string" where
  "to_dec n = (if n < 10 then [hex_digit n] else to_dec (n div 10) @ [hex_digit (n mod 10)])"

definition str_int :: "int \<Rightarrow> string" where
  "str_int i = (if i < 0 then ''-'' @ to_dec (nat (- i)) else to_dec (nat i))"

definition strtag :: "dxftag \<Rightarrow> string" where
  "strtag t =
     (let c = str_int (code t)
      in replicate (3 - length c) CHR '' '' @ c @ ''\<newline>'' @
         (case tagval t of StrVal s \<Rightarrow> s | IntVal i \<Rightarrow> str_int i) @ ''\<newline>'')"

definition sample_write_tags :: "extags \<Rightarrow> string" where
  "sample_write_tags x = concat (map strtag (common x @ concat (map snd (subclasses x))))"

definition sample_wrap_entity :: "extags \<Rightarrow> error + entry" where
  "sample_wrap_entity x =
     (case (tags_find 2 (common x), tags_find 5 (common x)) of
        (Some (StrVal n), Some (StrVal h)) \<Rightarrow>
          Inr \<lparr>entry_name = n, entry_handle = h, entry_tags = x\<rparr>
      | other \<Rightarrow> Inl UnknownTypeError)"

definition sample_new_entity :: "dxfvalue \<Rightarrow> handle \<Rightarrow> attribs \<Rightarrow> error + entry" where
  "sample_new_entity kind h a =
     (case a ''name'' of
        Some (StrVal n) \<Rightarrow>
          Inr \<lparr>entry_name = n, entry_handle = h,
               entry_tags = \<lparr>common = [DXFTag 0 kind, DXFTag 5 (StrVal h), DXFTag 2 (StrVal n)],
                             subclasses = []\<rparr>\<rparr>
      | other \<Rightarrow> Inl ValidationError)"

definition sample_gethandle :: "extags \<Rightarrow> nat \<Rightarrow> (error + handle) \<times> extags \<times> nat" where
  "sample_gethandle x k =
     (case tags_find 5 (common x) of
        Some (StrVal h) \<Rightarrow> (Inr h, x, k)
      | other \<Rightarrow> (Inr (to_hex k), x\<lparr>common := common x @ [DXFTag 5 (StrVal (to_hex k))]\<rparr>, Suc k))"

definition sample :: collab where
  "sample = \<lparr>handle_of = to_hex, new_entity = sample_new_entity,
             wrap_entity = sample_wrap_entity,
             extended_tags = (\<lambda>ts. \<lparr>common = ts, subclasses = []\<rparr>),
             gethandle = sample_gethandle, write_tags = sample_write_tags\<rparr>"

subsection \<open>Sample tables\<close>

text \<open>The stored tags of a layer entry with a handle and a name, and a table of two such
  layers in a drawing of the format AC1009 whose allocator has issued twelve handles.\<close>

definition layer_record :: "handle \<Rightarrow> string \<Rightarrow> extags" where
  "layer_record h n =
     \<lparr>common = [DXFTag 0 (StrVal ''LAYER''), DXFTag 5 (StrVal h), DXFTag 2 (StrVal n)],
      subclasses = []\<rparr>"

definition empty_drawing :: drawing where
  "empty_drawing = \<lparr>entitydb = Map.empty, handles = 12, dxfversion = ''AC1009''\<rparr>"

definition two_layers :: table where
  "two_layers =
     \<lparr>dxfname = StrVal ''LAYER'',
      drawing = \<lparr>entitydb = [''A'' \<mapsto> layer_record ''A'' ''0'', ''B'' \<mapsto> layer_record ''B'' ''WALLS''],
                 handles = 12, dxfversion = ''AC1009''\<rparr>,
      table_entries = [''A'', ''B''],
      table_header = Some \<lparr>common = [DXFTag 2 (StrVal ''LAYER''), DXFTag 70 (IntVal 0)],
                           subclasses = []\<rparr>\<rparr>"

text \<open>The same two layers in a drawing of the format AC1015, where the header keeps the
  entry count in the subclass \<^verbatim>\<open>AcDbSymbolTable\<close>.\<close>

definition two_layers_modern :: table where
  "two_layers_modern =
     two_layers
       \<lparr>drawing := (drawing two_layers)\<lparr>dxfversion := ''AC1015''\<rparr>,
        table_header :=
          Some \<lparr>common = [DXFTag 2 (StrVal ''LAYER'')],
                subclasses = [(''AcDbSymbolTable'',
                  [DXFTag 100 (StrVal ''AcDbSymbolTable''), DXFTag 70 (IntVal 0)])]\<rparr>\<rparr>"

text \<open>Two viewports of the same name, as \<^verbatim>\<open>ViewportTable\<close> allows them.\<close>

definition vport_record :: "handle \<Rightarrow> string \<Rightarrow> extags" where
  "vport_record h n =
     \<lparr>common = [DXFTag 0 (StrVal ''VPORT''), DXFTag 5 (StrVal h), DXFTag 2 (StrVal n)],
      subclasses = []\<rparr>"

definition two_viewports :: table where
  "two_viewports =
     \<lparr>dxfname = StrVal ''VPORT'',
      drawing = \<lparr>entitydb = [''A'' \<mapsto> vport_record ''A'' ''*ACTIVE'',
                                ''B'' \<mapsto> vport_record ''B'' ''*ACTIVE''],
                 handles = 12, dxfversion = ''AC1009''\<rparr>,
      table_entries = [''A'', ''B''],
      table_header = Some \<lparr>common = [DXFTag 2 (StrVal ''VPORT''), DXFTag 70 (IntVal 2)],
                           subclasses = []\<rparr>\<rparr>"

text \<open>A table section whose two entries carry the same handle, and the table that is
  built from it: the second record has replaced the first in the entity database, and
  the handle is a member twice.\<close>

definition twice_stream :: tags where
  "twice_stream =
     [DXFTag 0 (StrVal ''TABLE''), DXFTag 2 (StrVal ''LAYER''), DXFTag 70 (IntVal 2),
      DXFTag 0 (StrVal ''LAYER''), DXFTag 5 (StrVal ''A''), DXFTag 2 (StrVal ''0''),
      DXFTag 0 (StrVal ''LAYER''), DXFTag 5 (StrVal ''A''), DXFTag 2 (StrVal ''WALLS''),
      DXFTag 0 (StrVal ''ENDTAB'')]"

definition twice_table :: table where
  "twice_table =
     \<lparr>dxfname = StrVal ''LAYER'',
      drawing = \<lparr>entitydb = [''A'' \<mapsto> layer_record ''A'' ''WALLS''],
                 handles = 12, dxfversion = ''AC1009''\<rparr>,
      table_entries = [''A'', ''A''],
      table_header = Some \<lparr>common = [DXFTag 2 (StrVal ''LAYER''), DXFTag 70 (IntVal 2)],
                           subclasses = []\<rparr>\<rparr>"

section \<open>Properties\<close>

subsection \<open>Lookup by name\<close>

lemma scan_found_I:
  "\<forall>h'\<in>set pre. \<exists>y. f h' = Inr y \<and> entry_name y \<noteq> n \<Longrightarrow> f h = Inr x \<Longrightarrow>
   entry_name x = n \<Longrightarrow> get_entry_scan n (map f (pre @ h # post)) = Inr x"
  by (induction pre) auto

lemma scan_found_D:
  "get_entry_scan n (map f hs) = Inr x \<Longrightarrow>
     \<exists>pre h post. hs = pre @ h # post \<and> f h = Inr x \<and> entry_name x = n \<and>
        (\<forall>h'\<in>set pre. \<exists>y. f h' = Inr y \<and> entry_name y \<noteq> n)"
proof (induction hs)
  case Nil
  then show ?case by simp
next
  case (Cons a hs)
  show ?case
  proof (cases "f a")
    case (Inl e)
    with Cons.prems show ?thesis by simp
  next
    case (Inr y)
    show ?thesis
    proof (cases "entry_name y = n")
      case True
      with Inr Cons.prems have "a # hs = [] @ a # hs \<and> f a = Inr x \<and> entry_name x = n \<and>
          (\<forall>h'\<in>set []. \<exists>y. f h' = Inr y \<and> entry_name y \<noteq> n)"
        by simp
      then show ?thesis by blast
    next
      case False
      with Inr Cons.prems have "get_entry_scan n (map f hs) = Inr x" by simp
      from Cons.IH [OF this] obtain pre h post where
        "hs = pre @ h # post" "f h = Inr x" "entry_name x = n"
        "\<forall>h'\<in>set pre. \<exists>y. f h' = Inr y \<and> entry_name y \<noteq> n"
        by blast
      with Inr False have "a # hs = (a # pre) @ h # post \<and> f h = Inr x \<and> entry_name x = n \<and>
          (\<forall>h'\<in>set (a # pre). \<exists>y. f h' = Inr y \<and> entry_name y \<noteq> n)"
        by simp
      then show ?thesis by blast
    qed
  qed
qed

lemma scan_none:
  "\<forall>h\<in>set hs. \<exists>y. f h = Inr y \<and> entry_name y \<noteq> n \<Longrightarrow>
   get_entry_scan n (map f hs) = Inl (ValueError [StrVal n])"
  by (induction hs) auto

lemma scan_error:
  "get_entry_scan n (map f hs) = Inl e \<Longrightarrow>
   e = ValueError [StrVal n] \<or> (\<exists>h\<in>set hs. f h = Inl e)"
proof (induction hs)
  case Nil
  then show ?case by simp
next
  case (Cons a hs)
  then show ?case by (cases "f a") (auto split: if_splits)
qed

lemma wrapper_Inr:
  "(Table_get_table_entry_wrapper C t h = Inr y) =
   (\<exists>tg. entitydb (drawing t) h = Some tg \<and> wrap_entity C tg = Inr y)"
  by (simp add: Table_get_table_entry_wrapper_def split: option.splits)

lemma get_entry_scan_eq:
  "Table_get_entry C n t = get_entry_scan n (map (Table_get_table_entry_wrapper C t) (table_entries t))"
  by (simp add: Table_get_entry_def Table_iter_def)

text \<open>
  Claim C5. \<^verbatim>\<open>get(name)\<close> goes through the members in their order, each handle looked up
  in the entity database and the tags found there wrapped by the factory. It returns an
  entry exactly when some member resolves to it, carries the name, and every member
  before it resolves to an entry of another name. When every member resolves to an entry
  of another name it raises \<^verbatim>\<open>ValueError(name)\<close>, and an exception it raises is either
  that one or the one raised while a member was resolved: there is no other result.
\<close>

theorem get_returns_first_match:
  "(Table_get C n t = Inr x \<longleftrightarrow>
      (\<exists>pre h post tg. table_entries t = pre @ h # post \<and>
         entitydb (drawing t) h = Some tg \<and> wrap_entity C tg = Inr x \<and> entry_name x = n \<and>
         (\<forall>h'\<in>set pre. \<exists>tg' y. entitydb (drawing t) h' = Some tg' \<and>
              wrap_entity C tg' = Inr y \<and> entry_name y \<noteq> n))) \<and>
   ((\<forall>h\<in>set (table_entries t). \<exists>tg y. entitydb (drawing t) h = Some tg \<and>
        wrap_entity C tg = Inr y \<and> entry_name y \<noteq> n) \<longrightarrow>
      Table_get C n t = Inl (ValueError [StrVal n])) \<and>
   (\<forall>e. Table_get C n t = Inl e \<longrightarrow>
      e = ValueError [StrVal n] \<or>
      (\<exists>h\<in>set (table_entries t). Table_get_table_entry_wrapper C t h = Inl e))"
proof -
  let ?f = "Table_get_table_entry_wrapper C t"
  have get: "Table_get C n t = get_entry_scan n (map ?f (table_entries t))"
    by (simp add: Table_get_def get_entry_scan_eq)
  have "(Table_get C n t = Inr x) =
      (\<exists>pre h post. table_entries t = pre @ h # post \<and> ?f h = Inr x \<and> entry_name x = n \<and>
        (\<forall>h'\<in>set pre. \<exists>y. ?f h' = Inr y \<and> entry_name y \<noteq> n))"
    unfolding get using scan_found_D [of n ?f "table_entries t" x] scan_found_I [of _ ?f n _ x]
    by metis
  then have first: "(Table_get C n t = Inr x) =
      (\<exists>pre h post tg. table_entries t = pre @ h # post \<and>
         entitydb (drawing t) h = Some tg \<and> wrap_entity C tg = Inr x \<and> entry_name x = n \<and>
         (\<forall>h'\<in>set pre. \<exists>tg' y. entitydb (drawing t) h' = Some tg' \<and>
              wrap_entity C tg' = Inr y \<and> entry_name y \<noteq> n))"
    unfolding wrapper_Inr by blast
  have "\<forall>h\<in>set (table_entries t). \<exists>y. ?f h = Inr y \<and> entry_name y \<noteq> n \<Longrightarrow>
      Table_get C n t = Inl (ValueError [StrVal n])"
    unfolding get by (rule scan_none)
  then have none: "(\<forall>h\<in>set (table_entries t). \<exists>tg y. entitydb (drawing t) h = Some tg \<and>
        wrap_entity C tg = Inr y \<and> entry_name y \<noteq> n) \<longrightarrow>
      Table_get C n t = Inl (ValueError [StrVal n])"
    unfolding wrapper_Inr by blast
  have err: "\<forall>e. Table_get C n t = Inl e \<longrightarrow>
      e = ValueError [StrVal n] \<or> (\<exists>h\<in>set (table_entries t). ?f h = Inl e)"
    unfolding get using scan_error [of n ?f] by blast
  from first none err show ?thesis by blast
qed

lemma sample_simps [simp]:
  "wrap_entity sample = sample_wrap_entity" "new_entity sample = sample_new_entity"
  "handle_of sample = to_hex" "gethandle sample = sample_gethandle"
  "write_tags sample = sample_write_tags"
  "extended_tags sample = (\<lambda>ts. \<lparr>common = ts, subclasses = []\<rparr>)"
  by (simp_all add: sample_def)

lemma wrap_layer_record [simp]:
  "sample_wrap_entity (layer_record h n) =
     Inr \<lparr>entry_name = n, entry_handle = h, entry_tags = layer_record h n\<rparr>"
  by (simp add: sample_wrap_entity_def layer_record_def)

theorem get_returns_first_match_witness:
  "Table_get sample ''WALLS'' two_layers =
     Inr \<lparr>entry_name = ''WALLS'', entry_handle = ''B'', entry_tags = layer_record ''B'' ''WALLS''\<rparr> \<and>
   Table_get sample ''DOORS'' two_layers = Inl (ValueError [StrVal ''DOORS''])"
proof -
  have found: "\<exists>pre h post tg. table_entries two_layers = pre @ h # post \<and>
         entitydb (drawing two_layers) h = Some tg \<and>
         wrap_entity sample tg =
           Inr \<lparr>entry_name = ''WALLS'', entry_handle = ''B'', entry_tags = layer_record ''B'' ''WALLS''\<rparr> \<and>
         entry_name \<lparr>entry_name = ''WALLS'', entry_handle = ''B'', entry_tags = layer_record ''B'' ''WALLS''\<rparr> = ''WALLS'' \<and>
         (\<forall>h'\<in>set pre. \<exists>tg' y. entitydb (drawing two_layers) h' = Some tg' \<and>
              wrap_entity sample tg' = Inr y \<and> entry_name y \<noteq> ''WALLS'')"
    by (rule exI [of _ "[''A'']"], rule exI [of _ "''B''"], rule exI [of _ "[]"])
       (simp add: two_layers_def)
  have none: "\<forall>h\<in>set (table_entries two_layers). \<exists>tg y.
        entitydb (drawing two_layers) h = Some tg \<and> wrap_entity sample tg = Inr y \<and>
        entry_name y \<noteq> ''DOORS''"
    by (simp add: two_layers_def)
  from found none
    get_returns_first_match [of sample "''WALLS''" two_layers
      "\<lparr>entry_name = ''WALLS'', entry_handle = ''B'', entry_tags = layer_record ''B'' ''WALLS''\<rparr>"]
    get_returns_first_match [of sample "''DOORS''" two_layers]
  show ?thesis by blast
qed

subsection \<open>Construction from tags\<close>

lemma tag_groups_scan_nonempty:
  "\<forall>g\<in>set finished. g \<noteq> [] \<Longrightarrow> cur \<noteq> Some [] \<Longrightarrow>
   \<forall>g\<in>set (tag_groups_scan finished cur ts). g \<noteq> []"
proof (induction ts arbitrary: finished cur)
  case Nil
  then show ?case by (cases cur) auto
next
  case (Cons t ts)
  show ?case
  proof (cases "code t = 0")
    case True
    have "\<forall>g\<in>set (case cur of None \<Rightarrow> finished | Some g \<Rightarrow> finished @ [g]). g \<noteq> []"
      using Cons.prems by (cases cur) auto
    from Cons.IH [OF this, of "Some [t]"] True show ?thesis by simp
  next
    case False
    show ?thesis
    proof (cases cur)
      case None
      with False Cons.IH [OF Cons.prems(1), of None] show ?thesis by simp
    next
      case (Some g)
      with False Cons.IH [OF Cons.prems(1), of "Some (g @ [t])"] show ?thesis by simp
    qed
  qed
qed

lemma TagGroups_nonempty: "g \<in> set (TagGroups ts) \<Longrightarrow> g \<noteq> []"
  using tag_groups_scan_nonempty [of "[]" None ts] by (simp add: TagGroups_def)

lemma getname_first:
  assumes "gs \<noteq> []" "\<forall>g\<in>set gs. g \<noteq> []"
  shows "getname gs 0 = Inr (tagval (hd (hd gs)))"
proof -
  from assms have "hd gs \<noteq> []" by simp
  with assms(1) show ?thesis
    by (cases gs; cases "hd gs") (auto simp: getname_def py_index_def)
qed

lemma getname_final:
  assumes "gs \<noteq> []" "\<forall>g\<in>set gs. g \<noteq> []"
  shows "getname gs (- 1) = Inr (tagval (hd (last gs)))"
proof -
  from assms have ne: "last gs \<noteq> []" by simp
  from assms(1) have idx: "py_index gs (- 1) = Inr (last gs)"
    by (simp add: py_index_def Let_def last_conv_nth nat_diff_distrib' of_nat_diff)
  from ne have "py_index (last gs) 0 = Inr (hd (last gs))"
    by (cases "last gs") (auto simp: py_index_def)
  with idx show ?thesis by (simp add: getname_def)
qed

lemma getname_Inr_nonempty: "getname gs i = Inr a \<Longrightarrow> gs \<noteq> []"
  by (auto simp: getname_def py_index_def Let_def split: if_splits)

text \<open>
  Claim C4. When the first group of the tag sequence is not named \<^verbatim>\<open>TABLE\<close> or the
  last group is not named \<^verbatim>\<open>ENDTAB\<close>, the construction fails on the malformed
  sequence: \<^verbatim>\<open>_build_table_entries\<close> raises the AssertionError of its check (assertions
  on) and leaves the table as it was, without header and without entry; the constructor
  passes the exception on to its caller, builds no table and leaves the drawing
  unchanged. For a sequence of fewer than two tags the constructor fails before the check
  is reached, with the IndexError of reading \<^verbatim>\<open>tags[1]\<close>. The specification calls both
  failures StructureError, the failure on a malformed sequence.
\<close>

theorem construction_checks_names:
  assumes "(\<exists>a. getname (TagGroups tgs) 0 = Inr a \<and> a \<noteq> StrVal ''TABLE'') \<or>
           (\<exists>b. getname (TagGroups tgs) (- 1) = Inr b \<and> b \<noteq> StrVal ''ENDTAB'')"
  shows "Table_build_table_entries C tgs t = (Inl AssertionError, t) \<and>
         Table_init C tgs d = Inl (if length tgs < 2 then IndexError else AssertionError, d)"
proof -
  let ?gs = "TagGroups tgs"
  from assms have ne: "?gs \<noteq> []" by (auto dest: getname_Inr_nonempty)
  have all: "\<forall>g\<in>set ?gs. g \<noteq> []" by (simp add: TagGroups_nonempty)
  obtain a b where a: "getname ?gs 0 = Inr a" and b: "getname ?gs (- 1) = Inr b"
    using getname_first [OF ne all] getname_final [OF ne all] by blast
  from assms a b have bad: "a \<noteq> StrVal ''TABLE'' \<or> b \<noteq> StrVal ''ENDTAB''" by auto
  with a b have build: "Table_build_table_entries C tgs t' = (Inl AssertionError, t')" for t'
    by (auto simp: Table_build_table_entries_def Let_def)
  have "Table_init C tgs d = Inl (if length tgs < 2 then IndexError else AssertionError, d)"
  proof (cases "length tgs < 2")
    case True
    then have "py_index tgs 1 = Inl IndexError" by (simp add: py_index_def Let_def)
    with True show ?thesis by (simp add: Table_init_def)
  next
    case False
    then have "py_index tgs 1 = Inr (tgs ! 1)" by (simp add: py_index_def Let_def)
    with False build show ?thesis by (simp add: Table_init_def)
  qed
  with build show ?thesis by simp
qed

text \<open>Two sequences that open with \<^verbatim>\<open>SECTION\<close> in place of \<^verbatim>\<open>TABLE\<close>, one of three
  tags and one of a single tag.\<close>

theorem construction_checks_names_witness:
  "getname (TagGroups [DXFTag 0 (StrVal ''SECTION''), DXFTag 2 (StrVal ''LAYER''),
                       DXFTag 0 (StrVal ''ENDTAB'')]) 0 = Inr (StrVal ''SECTION'') \<and>
   Table_init sample [DXFTag 0 (StrVal ''SECTION''), DXFTag 2 (StrVal ''LAYER''),
                      DXFTag 0 (StrVal ''ENDTAB'')] empty_drawing =
     Inl (AssertionError, empty_drawing) \<and>
   getname (TagGroups [DXFTag 0 (StrVal ''SECTION'')]) 0 = Inr (StrVal ''SECTION'') \<and>
   Table_init sample [DXFTag 0 (StrVal ''SECTION'')] empty_drawing =
     Inl (IndexError, empty_drawing)"
proof -
  have first: "getname (TagGroups [DXFTag 0 (StrVal ''SECTION''), DXFTag 2 (StrVal ''LAYER''),
      DXFTag 0 (StrVal ''ENDTAB'')]) 0 = Inr (StrVal ''SECTION'')"
    by (simp add: TagGroups_def getname_def py_index_def)
  then have "(\<exists>a. getname (TagGroups [DXFTag 0 (StrVal ''SECTION''), DXFTag 2 (StrVal ''LAYER''),
        DXFTag 0 (StrVal ''ENDTAB'')]) 0 = Inr a \<and> a \<noteq> StrVal ''TABLE'') \<or>
      (\<exists>b. getname (TagGroups [DXFTag 0 (StrVal ''SECTION''), DXFTag 2 (StrVal ''LAYER''),
        DXFTag 0 (StrVal ''ENDTAB'')]) (- 1) = Inr b \<and> b \<noteq> StrVal ''ENDTAB'')"
    by simp
  from construction_checks_names [OF this, of sample _ empty_drawing]
  have long: "Table_init sample [DXFTag 0 (StrVal ''SECTION''), DXFTag 2 (StrVal ''LAYER''),
      DXFTag 0 (StrVal ''ENDTAB'')] empty_drawing = Inl (AssertionError, empty_drawing)"
    by simp
  have only: "getname (TagGroups [DXFTag 0 (StrVal ''SECTION'')]) 0 = Inr (StrVal ''SECTION'')"
    by (simp add: TagGroups_def getname_def py_index_def)
  then have "(\<exists>a. getname (TagGroups [DXFTag 0 (StrVal ''SECTION'')]) 0 = Inr a \<and>
        a \<noteq> StrVal ''TABLE'') \<or>
      (\<exists>b. getname (TagGroups [DXFTag 0 (StrVal ''SECTION'')]) (- 1) = Inr b \<and>
        b \<noteq> StrVal ''ENDTAB'')"
    by simp
  from construction_checks_names [OF this, of sample _ empty_drawing]
  have short: "Table_init sample [DXFTag 0 (StrVal ''SECTION'')] empty_drawing =
      Inl (IndexError, empty_drawing)"
    by simp
  from first long only short show ?thesis by simp
qed

subsection \<open>Creating entries\<close>

lemma new_entry_success:
  "new_entity C (dxfname t) (handle_of C (handles (drawing t))) a = Inr e \<Longrightarrow>
   Table_new_entry C a t =
     (Inr e, store_entry (entry_handle e) (entry_tags e)
               (t\<lparr>drawing := (drawing t)\<lparr>handles := Suc (handles (drawing t))\<rparr>\<rparr>))"
  by (simp add: Table_new_entry_def handles_next_def Table_add_entry_def)

lemma new_entry_failure:
  "new_entity C (dxfname t) (handle_of C (handles (drawing t))) a = Inl err \<Longrightarrow>
   Table_new_entry C a t =
     (Inl err, t\<lparr>drawing := (drawing t)\<lparr>handles := Suc (handles (drawing t))\<rparr>\<rparr>)"
  by (simp add: Table_new_entry_def handles_next_def)

lemma new_entry_Inr_D:
  "Table_new_entry C a t = (Inr e, t') \<Longrightarrow>
   new_entity C (dxfname t) (handle_of C (handles (drawing t))) a = Inr e"
  by (cases "new_entity C (dxfname t) (handle_of C (handles (drawing t))) a")
     (simp_all add: new_entry_failure new_entry_success)

lemma len_store_entry [simp]: "Table_len (store_entry h x t) = Suc (Table_len t)"
  by (simp add: Table_len_def store_entry_def)

lemma entries_store_entry [simp]: "table_entries (store_entry h x t) = table_entries t @ [h]"
  by (simp add: store_entry_def)

lemmas table_defs =
  Table_contains_def Table_entry_exists_def Table_get_entry_def Table_iter_def
  Table_get_table_entry_wrapper_def Table_len_def

text \<open>
  Claim C6. \<^verbatim>\<open>ViewportTable.create(name, attribs)\<close> never looks at the names of the
  members: whenever the factory makes the entry, the call returns it and the table has
  one member more, the new handle last, whether or not a member of that name exists.
  Every call that returns raises the count by exactly one, and a call that raises does so
  with the exception of the factory and adds no member.
\<close>

theorem viewport_create_adds_one:
  "(new_entity C (dxfname t) (handle_of C (handles (drawing t)))
       ((case a of None \<Rightarrow> Map.empty | Some a0 \<Rightarrow> a0)(''name'' \<mapsto> StrVal n)) = Inr e \<longrightarrow>
     (\<exists>a' t'. ViewportTable_create C n a t = (Inr e, a', t') \<and>
        Table_len t' = Table_len t + 1 \<and>
        table_entries t' = table_entries t @ [entry_handle e])) \<and>
   (ViewportTable_create C n a t = (Inr e, a1, t1) \<longrightarrow> Table_len t1 = Table_len t + 1) \<and>
   (ViewportTable_create C n a t = (Inl err, a1, t1) \<longrightarrow>
      new_entity C (dxfname t) (handle_of C (handles (drawing t)))
        ((case a of None \<Rightarrow> Map.empty | Some a0 \<Rightarrow> a0)(''name'' \<mapsto> StrVal n)) = Inl err \<and>
      table_entries t1 = table_entries t)"
proof -
  let ?a = "(case a of None \<Rightarrow> Map.empty | Some a0 \<Rightarrow> a0)(''name'' \<mapsto> StrVal n)"
  let ?ne = "new_entity C (dxfname t) (handle_of C (handles (drawing t))) ?a"
  have create: "ViewportTable_create C n a t =
      (fst (Table_new_entry C ?a t), map_option (\<lambda>a0. ?a) a, snd (Table_new_entry C ?a t))"
    by (simp add: ViewportTable_create_def Let_def split_beta)
  show ?thesis
  proof (cases ?ne)
    case (Inl x)
    then show ?thesis
      unfolding create by (auto simp add: new_entry_failure Table_len_def)
  next
    case (Inr y)
    then show ?thesis
      unfolding create by (auto simp add: new_entry_success Table_len_def)
  qed
qed

text \<open>A third layer named \<^verbatim>\<open>WALLS\<close> is created in a table that has one already.\<close>

theorem viewport_create_adds_one_witness:
  "Table_contains sample ''WALLS'' two_layers = Inr True \<and>
   (\<exists>a' t'. ViewportTable_create sample ''WALLS'' None two_layers =
      (Inr \<lparr>entry_name = ''WALLS'', entry_handle = ''C'', entry_tags = layer_record ''C'' ''WALLS''\<rparr>,
       a', t') \<and>
      Table_len t' = Table_len two_layers + 1 \<and>
      table_entries t' = [''A'', ''B'', ''C''])"
proof -
  have exists: "Table_contains sample ''WALLS'' two_layers = Inr True"
    by (simp add: table_defs two_layers_def)
  have "new_entity sample (dxfname two_layers) (handle_of sample (handles (drawing two_layers)))
       ((case None of None \<Rightarrow> Map.empty | Some a0 \<Rightarrow> a0)(''name'' \<mapsto> StrVal ''WALLS'')) =
     Inr \<lparr>entry_name = ''WALLS'', entry_handle = ''C'', entry_tags = layer_record ''C'' ''WALLS''\<rparr>"
    by (simp add: two_layers_def sample_new_entity_def layer_record_def hex_digit_def)
  with viewport_create_adds_one [of sample two_layers None "''WALLS''"
      "\<lparr>entry_name = ''WALLS'', entry_handle = ''C'', entry_tags = layer_record ''C'' ''WALLS''\<rparr>"]
  have "\<exists>a' t'. ViewportTable_create sample ''WALLS'' None two_layers =
      (Inr \<lparr>entry_name = ''WALLS'', entry_handle = ''C'', entry_tags = layer_record ''C'' ''WALLS''\<rparr>,
       a', t') \<and>
      Table_len t' = Table_len two_layers + 1 \<and>
      table_entries t' = table_entries two_layers @ [''C'']"
    by simp
  with exists show ?thesis by (simp add: two_layers_def)
qed

text \<open>
  Claim C10. The middle component of the result of \<^verbatim>\<open>create\<close> is the caller's mapping
  as the call leaves it. For \<^verbatim>\<open>ViewportTable.create\<close>, and for \<^verbatim>\<open>Table.create\<close> once the
  test for an entry of that name has answered no, it is the mapping passed in with
  \<^verbatim>\<open>'name'\<close> set to the name, and \<^verbatim>\<open>new_entry\<close> is called with that mapping, whatever
  \<^verbatim>\<open>new_entry\<close> then does.
\<close>

theorem create_sets_name_in_attribs:
  "(ViewportTable_create C n (Some a) t = (r, a', t') \<longrightarrow>
      a' = Some (a(''name'' \<mapsto> StrVal n)) \<and>
      (r, t') = Table_new_entry C (a(''name'' \<mapsto> StrVal n)) t) \<and>
   (Table_contains C n t = Inr False \<longrightarrow> Table_create C n (Some a) t = (r, a', t') \<longrightarrow>
      a' = Some (a(''name'' \<mapsto> StrVal n)) \<and>
      (r, t') = Table_new_entry C (a(''name'' \<mapsto> StrVal n)) t)"
  by (auto simp add: ViewportTable_create_def Table_create_def Let_def split_beta)

theorem create_sets_name_in_attribs_witness:
  "Table_contains sample ''DOORS'' two_layers = Inr False \<and>
   fst (snd (Table_create sample ''DOORS'' (Some [''color'' \<mapsto> IntVal 7]) two_layers)) =
     Some [''color'' \<mapsto> IntVal 7, ''name'' \<mapsto> StrVal ''DOORS''] \<and>
   fst (snd (ViewportTable_create sample ''WALLS'' (Some [''color'' \<mapsto> IntVal 7]) two_layers)) =
     Some [''color'' \<mapsto> IntVal 7, ''name'' \<mapsto> StrVal ''WALLS'']"
proof -
  have absent: "Table_contains sample ''DOORS'' two_layers = Inr False"
    by (simp add: table_defs two_layers_def)
  let ?c = "Table_create sample ''DOORS'' (Some [''color'' \<mapsto> IntVal 7]) two_layers"
  let ?v = "ViewportTable_create sample ''WALLS'' (Some [''color'' \<mapsto> IntVal 7]) two_layers"
  have "?c = (fst ?c, fst (snd ?c), snd (snd ?c))" by simp
  with absent
    create_sets_name_in_attribs [of sample "''DOORS''" "[''color'' \<mapsto> IntVal 7]" two_layers
      "fst ?c" "fst (snd ?c)" "snd (snd ?c)"]
  have c: "fst (snd ?c) = Some [''color'' \<mapsto> IntVal 7, ''name'' \<mapsto> StrVal ''DOORS'']"
    by blast
  have "?v = (fst ?v, fst (snd ?v), snd (snd ?v))" by simp
  with create_sets_name_in_attribs [of sample "''WALLS''" "[''color'' \<mapsto> IntVal 7]" two_layers
      "fst ?v" "fst (snd ?v)" "snd (snd ?v)"]
  have v: "fst (snd ?v) = Some [''color'' \<mapsto> IntVal 7, ''name'' \<mapsto> StrVal ''WALLS'']"
    by blast
  from absent c v show ?thesis by simp
qed

subsection \<open>Writing the table\<close>

lemma tags_update_found:
  "tags_find c ts = Some old \<Longrightarrow>
   \<exists>ts'. tags_update c v ts = Inr ts' \<and> tags_find c ts' = Some v \<and> map code ts' = map code ts"
  by (induction ts) (auto split: if_splits)

lemma subclasses_store_lookup:
  "map_of xs k = Some ts \<Longrightarrow> map_of (subclasses_store k ts' xs) k = Some ts'"
  by (induction xs) (auto split: if_splits)

lemma subclasses_store_keys: "map fst (subclasses_store k ts' xs) = map fst xs"
  by (induction xs) auto

lemma write_content_extends: "write_content C rs s = (r, s') \<Longrightarrow> \<exists>rest. s' = s @ rest"
proof (induction rs arbitrary: s)
  case Nil
  then show ?case by simp
next
  case (Cons a rs)
  then show ?case by (cases a) fastforce+
qed

lemma write_content_live:
  "list_all (\<lambda>h. db h \<noteq> None) hs \<Longrightarrow>
   write_content C (map (\<lambda>h. case db h of None \<Rightarrow> Inl (KeyError h) | Some x \<Rightarrow> Inr x) hs) s =
     (Inr (), s @ concat (map (\<lambda>h. write_tags C (the (db h))) hs))"
  by (induction hs arbitrary: s) auto

lemma write_content_Inr_live:
  "write_content C (map (\<lambda>h. case db h of None \<Rightarrow> Inl (KeyError h) | Some x \<Rightarrow> Inr x) hs) s =
     (Inr (), s') \<Longrightarrow> list_all (\<lambda>h. db h \<noteq> None) hs"
  by (induction hs arbitrary: s) (auto split: option.splits)

lemma update_meta_data_frame:
  "Table_update_meta_data t = (r, t') \<Longrightarrow>
   table_entries t' = table_entries t \<and> drawing t' = drawing t \<and> dxfname t' = dxfname t"
  by (auto simp: Table_update_meta_data_def Let_def split: option.splits sum.splits if_splits)

lemma update_meta_data_Inr_header:
  "Table_update_meta_data t = (Inr (), t') \<Longrightarrow> \<exists>hd1. table_header t' = Some hd1"
  by (auto simp: Table_update_meta_data_def Let_def split: option.splits sum.splits if_splits)

lemma write_after_update:
  assumes "Table_update_meta_data t = (Inr (), t1)" "table_header t1 = Some hd1"
  shows "Table_write C s t =
     (case write_content C (Table_iter_table_entries_as_tags t) (s @ ''  0\<newline>TABLE\<newline>'' @ write_tags C hd1) of
        (Inl e, s2) \<Rightarrow> (Inl e, s2, t1)
      | (Inr u, s2) \<Rightarrow> (Inr (), s2 @ ''  0\<newline>ENDTAB\<newline>'', t1))"
proof -
  from update_meta_data_frame [OF assms(1)]
  have "Table_iter_table_entries_as_tags t1 = Table_iter_table_entries_as_tags t"
    by (simp add: Table_iter_table_entries_as_tags_def)
  with assms show ?thesis by (simp add: Table_write_def Let_def)
qed

text \<open>
  Claim C3. A call of \<^verbatim>\<open>write\<close> that returns has appended to the stream exactly: the
  marker \<^verbatim>\<open>TABLE\<close> (code 0), the header as \<^verbatim>\<open>_update_meta_data\<close> left it, the stored
  tags of every member in the order of the members, and the marker \<^verbatim>\<open>ENDTAB\<close> (code
  0); every member then has a record in the entity database. And \<^verbatim>\<open>write\<close> does return
  whenever the update of the header succeeds and every member has a record.
\<close>

theorem write_emits_marker_header_members_marker:
  "(Table_write C s t = (Inr (), s', t') \<longrightarrow>
      (\<exists>hd1. Table_update_meta_data t = (Inr (), t') \<and> table_header t' = Some hd1 \<and>
         members_live t \<and>
         s' = s @ ''  0\<newline>TABLE\<newline>'' @ write_tags C hd1 @
              concat (map (\<lambda>h. write_tags C (the (entitydb (drawing t) h))) (table_entries t)) @
              ''  0\<newline>ENDTAB\<newline>'')) \<and>
   (Table_update_meta_data t = (Inr (), t1) \<longrightarrow> members_live t \<longrightarrow>
      (\<exists>s1. Table_write C s t = (Inr (), s1, t1)))"
proof (intro conjI impI)
  assume w: "Table_write C s t = (Inr (), s', t')"
  obtain r t1 where u: "Table_update_meta_data t = (r, t1)" by (cases "Table_update_meta_data t")
  with w have r: "r = Inr ()" by (cases r) (auto simp: Table_write_def Let_def)
  with u obtain hd1 where hd1: "table_header t1 = Some hd1"
    by (auto dest: update_meta_data_Inr_header)
  let ?s0 = "s @ ''  0\<newline>TABLE\<newline>'' @ write_tags C hd1"
  obtain r2 s2 where c: "write_content C (Table_iter_table_entries_as_tags t) ?s0 = (r2, s2)"
    by (cases "write_content C (Table_iter_table_entries_as_tags t) ?s0")
  from w u r hd1 c have r2: "r2 = Inr ()" and s': "s' = s2 @ ''  0\<newline>ENDTAB\<newline>''" and t': "t' = t1"
    by (cases r2; simp add: write_after_update)+
  from c r2 have live: "members_live t"
    unfolding Table_iter_table_entries_as_tags_def members_live_def
    by (auto dest: write_content_Inr_live)
  from c r2 write_content_live [of "entitydb (drawing t)" "table_entries t" C ?s0] live
  have "s2 = ?s0 @ concat (map (\<lambda>h. write_tags C (the (entitydb (drawing t) h))) (table_entries t))"
    by (simp add: Table_iter_table_entries_as_tags_def members_live_def)
  with s' t' u r hd1 live
  show "\<exists>hd1. Table_update_meta_data t = (Inr (), t') \<and> table_header t' = Some hd1 \<and>
         members_live t \<and>
         s' = s @ ''  0\<newline>TABLE\<newline>'' @ write_tags C hd1 @
              concat (map (\<lambda>h. write_tags C (the (entitydb (drawing t) h))) (table_entries t)) @
              ''  0\<newline>ENDTAB\<newline>''"
    by simp
next
  assume u: "Table_update_meta_data t = (Inr (), t1)" and live: "members_live t"
  from u obtain hd1 where hd1: "table_header t1 = Some hd1"
    by (auto dest: update_meta_data_Inr_header)
  from live show "\<exists>s1. Table_write C s t = (Inr (), s1, t1)"
    by (simp add: write_after_update [OF u hd1] Table_iter_table_entries_as_tags_def
        members_live_def write_content_live)
qed


lemma write_after_update_extends:
  assumes "Table_update_meta_data t = (Inr (), t1)" "table_header t1 = Some hd1"
  shows "\<exists>r s' rest. Table_write C s t = (r, s', t1) \<and>
           s' = s @ ''  0\<newline>TABLE\<newline>'' @ write_tags C hd1 @ rest"
proof -
  let ?s0 = "s @ ''  0\<newline>TABLE\<newline>'' @ write_tags C hd1"
  obtain r2 s2 where c: "write_content C (Table_iter_table_entries_as_tags t) ?s0 = (r2, s2)"
    by (cases "write_content C (Table_iter_table_entries_as_tags t) ?s0")
  from write_content_extends [OF c] obtain rest where "s2 = ?s0 @ rest" by blast
  with c show ?thesis
    by (cases r2) (simp_all add: write_after_update [OF assms])
qed

text \<open>
  Claim C2. Whatever value \<open>old\<close> the header holds under group code 70, \<^verbatim>\<open>write\<close> leaves
  the number of members there and writes the header so patched right after the opening
  marker. For a version that is not greater than \<^verbatim>\<open>AC1009\<close> the field is the first tag of
  code 70 of the header's top level, for a greater version the first tag of code 70 in
  the subclass \<^verbatim>\<open>AcDbSymbolTable\<close>; the other part of the header, the group codes and
  the members stay as they were.
\<close>

theorem write_patches_entry_count:
  assumes "table_header t = Some hd0"
  shows
   "(\<not> ''AC1009'' < dxfversion (drawing t) \<longrightarrow> tags_find 70 (common hd0) = Some old \<longrightarrow>
      (\<exists>r s' t' hd1 rest. Table_write C s t = (r, s', t') \<and> table_header t' = Some hd1 \<and>
          tags_find 70 (common hd1) = Some (IntVal (int (Table_len t))) \<and>
          map code (common hd1) = map code (common hd0) \<and> subclasses hd1 = subclasses hd0 \<and>
          table_entries t' = table_entries t \<and>
          s' = s @ ''  0\<newline>TABLE\<newline>'' @ write_tags C hd1 @ rest)) \<and>
    (''AC1009'' < dxfversion (drawing t) \<longrightarrow>
     map_of (subclasses hd0) ''AcDbSymbolTable'' = Some ts \<longrightarrow> tags_find 70 ts = Some old \<longrightarrow>
      (\<exists>r s' t' hd1 ts1 rest. Table_write C s t = (r, s', t') \<and> table_header t' = Some hd1 \<and>
          map_of (subclasses hd1) ''AcDbSymbolTable'' = Some ts1 \<and>
          tags_find 70 ts1 = Some (IntVal (int (Table_len t))) \<and>
          map code ts1 = map code ts \<and> common hd1 = common hd0 \<and>
          map fst (subclasses hd1) = map fst (subclasses hd0) \<and>
          table_entries t' = table_entries t \<and>
          s' = s @ ''  0\<newline>TABLE\<newline>'' @ write_tags C hd1 @ rest))"
proof (intro conjI impI)
  let ?v = "IntVal (int (Table_len t))"
  assume legacy: "\<not> ''AC1009'' < dxfversion (drawing t)" and f: "tags_find 70 (common hd0) = Some old"
  from tags_update_found [OF f, of ?v] obtain ts' where
    ts': "tags_update 70 ?v (common hd0) = Inr ts'" "tags_find 70 ts' = Some ?v"
      "map code ts' = map code (common hd0)"
    by blast
  let ?hd1 = "hd0\<lparr>common := ts'\<rparr>"
  let ?t1 = "t\<lparr>table_header := Some ?hd1\<rparr>"
  from assms legacy ts' have u: "Table_update_meta_data t = (Inr (), ?t1)"
    by (simp add: Table_update_meta_data_def Let_def extags_update_def)
  have h: "table_header ?t1 = Some ?hd1" by simp
  from write_after_update_extends [OF u h, of C s] ts'
  show "\<exists>r s' t' hd1 rest. Table_write C s t = (r, s', t') \<and> table_header t' = Some hd1 \<and>
          tags_find 70 (common hd1) = Some (IntVal (int (Table_len t))) \<and>
          map code (common hd1) = map code (common hd0) \<and> subclasses hd1 = subclasses hd0 \<and>
          table_entries t' = table_entries t \<and>
          s' = s @ ''  0\<newline>TABLE\<newline>'' @ write_tags C hd1 @ rest"
    by fastforce
next
  let ?v = "IntVal (int (Table_len t))"
  let ?k = "''AcDbSymbolTable''"
  assume modern: "''AC1009'' < dxfversion (drawing t)"
    and sub: "map_of (subclasses hd0) ?k = Some ts" and f: "tags_find 70 ts = Some old"
  from tags_update_found [OF f, of ?v] obtain ts' where
    ts': "tags_update 70 ?v ts = Inr ts'" "tags_find 70 ts' = Some ?v" "map code ts' = map code ts"
    by blast
  let ?hd1 = "hd0\<lparr>subclasses := subclasses_store ?k ts' (subclasses hd0)\<rparr>"
  let ?t1 = "t\<lparr>table_header := Some ?hd1\<rparr>"
  from assms modern sub ts' have u: "Table_update_meta_data t = (Inr (), ?t1)"
    by (simp add: Table_update_meta_data_def Let_def subclass_update_def)
  have h: "table_header ?t1 = Some ?hd1" by simp
  have look: "map_of (subclasses ?hd1) ?k = Some ts'"
    using subclasses_store_lookup [OF sub] by simp
  have keys: "map fst (subclasses ?hd1) = map fst (subclasses hd0)"
    by (simp add: subclasses_store_keys)
  from write_after_update_extends [OF u h, of C s] obtain r s' rest where
    w: "Table_write C s t = (r, s', ?t1)" "s' = s @ ''  0\<newline>TABLE\<newline>'' @ write_tags C ?hd1 @ rest"
    by blast
  have "Table_write C s t = (r, s', ?t1) \<and> table_header ?t1 = Some ?hd1 \<and>
          map_of (subclasses ?hd1) ?k = Some ts' \<and>
          tags_find 70 ts' = Some ?v \<and>
          map code ts' = map code ts \<and> common ?hd1 = common hd0 \<and>
          map fst (subclasses ?hd1) = map fst (subclasses hd0) \<and>
          table_entries ?t1 = table_entries t \<and>
          s' = s @ ''  0\<newline>TABLE\<newline>'' @ write_tags C ?hd1 @ rest"
    using w look keys ts' by simp
  then show "\<exists>r s' t' hd1 ts1 rest. Table_write C s t = (r, s', t') \<and> table_header t' = Some hd1 \<and>
          map_of (subclasses hd1) ''AcDbSymbolTable'' = Some ts1 \<and>
          tags_find 70 ts1 = Some (IntVal (int (Table_len t))) \<and>
          map code ts1 = map code ts \<and> common hd1 = common hd0 \<and>
          map fst (subclasses hd1) = map fst (subclasses hd0) \<and>
          table_entries t' = table_entries t \<and>
          s' = s @ ''  0\<newline>TABLE\<newline>'' @ write_tags C hd1 @ rest"
    by blast
qed


text \<open>Two members, and a header that says none, in both formats.\<close>

theorem write_patches_entry_count_witness:
  "(\<exists>hd1. table_header (snd (snd (Table_write sample [] two_layers))) = Some hd1 \<and>
      tags_find 70 (common hd1) = Some (IntVal 2)) \<and>
   (\<exists>hd1 ts1. table_header (snd (snd (Table_write sample [] two_layers_modern))) = Some hd1 \<and>
      map_of (subclasses hd1) ''AcDbSymbolTable'' = Some ts1 \<and>
      tags_find 70 ts1 = Some (IntVal 2))"
proof -
  have legacy: "table_header two_layers =
        Some \<lparr>common = [DXFTag 2 (StrVal ''LAYER''), DXFTag 70 (IntVal 0)], subclasses = []\<rparr>"
      "\<not> ''AC1009'' < dxfversion (drawing two_layers)" "Table_len two_layers = 2"
    by (simp_all add: two_layers_def Table_len_def)
  have modern: "table_header two_layers_modern =
        Some \<lparr>common = [DXFTag 2 (StrVal ''LAYER'')],
              subclasses = [(''AcDbSymbolTable'',
                [DXFTag 100 (StrVal ''AcDbSymbolTable''), DXFTag 70 (IntVal 0)])]\<rparr>"
      "''AC1009'' < dxfversion (drawing two_layers_modern)" "Table_len two_layers_modern = 2"
    by (simp_all add: two_layers_modern_def two_layers_def Table_len_def)
  from write_patches_entry_count [OF legacy(1), where old = "IntVal 0" and C = sample and s = "[]"] legacy(2,3)
  have a: "\<exists>hd1. table_header (snd (snd (Table_write sample [] two_layers))) = Some hd1 \<and>
      tags_find 70 (common hd1) = Some (IntVal 2)"
    by fastforce
  from write_patches_entry_count [OF modern(1), where old = "IntVal 0" and C = sample and s = "[]"
      and ts = "[DXFTag 100 (StrVal ''AcDbSymbolTable''), DXFTag 70 (IntVal 0)]"]
    modern(2,3)
  have b: "\<exists>hd1 ts1. table_header (snd (snd (Table_write sample [] two_layers_modern))) = Some hd1 \<and>
      map_of (subclasses hd1) ''AcDbSymbolTable'' = Some ts1 \<and>
      tags_find 70 ts1 = Some (IntVal 2)"
    by fastforce
  from a b show ?thesis by blast
qed

lemma replicate_small: "replicate 2 x = [x, x]" "replicate 3 x = [x, x, x]"
  by (simp_all add: numeral_2_eq_2 numeral_3_eq_3)

lemmas strtag_eval =
  sample_write_tags_def strtag_def str_int_def hex_digit_def Let_def replicate_small

text \<open>The text written for the table of two layers.\<close>

theorem write_emits_marker_header_members_marker_witness:
  "fst (Table_write sample [] two_layers) = Inr () \<and>
   fst (snd (Table_write sample [] two_layers)) =
     ''  0\<newline>TABLE\<newline>  2\<newline>LAYER\<newline> 70\<newline>2\<newline>'' @
     ''  0\<newline>LAYER\<newline>  5\<newline>A\<newline>  2\<newline>0\<newline>'' @
     ''  0\<newline>LAYER\<newline>  5\<newline>B\<newline>  2\<newline>WALLS\<newline>'' @
     ''  0\<newline>ENDTAB\<newline>''"
proof -
  let ?hd1 = "\<lparr>common = [DXFTag 2 (StrVal ''LAYER''), DXFTag 70 (IntVal 2)], subclasses = []\<rparr>"
  let ?t1 = "two_layers\<lparr>table_header := Some ?hd1\<rparr>"
  have u: "Table_update_meta_data two_layers = (Inr (), ?t1)"
    by (simp add: Table_update_meta_data_def Let_def extags_update_def two_layers_def Table_len_def)
  have live: "members_live two_layers"
    by (simp add: members_live_def two_layers_def)
  have hd1: "table_header ?t1 = Some ?hd1" by simp
  note inst = write_emits_marker_header_members_marker
    [where C = sample and s = "[]" and t = two_layers and ?t1.0 = ?t1]
  from inst [THEN conjunct2, THEN mp, THEN mp, OF u live]
  have "\<exists>s1. Table_write sample [] two_layers = (Inr (), s1, ?t1)" .
  then obtain s1 where w: "Table_write sample [] two_layers = (Inr (), s1, ?t1)" ..
  from inst [where s' = s1 and t' = ?t1, THEN conjunct1, THEN mp, OF w]
  have "\<exists>hd1. Table_update_meta_data two_layers = (Inr (), ?t1) \<and> table_header ?t1 = Some hd1 \<and>
         members_live two_layers \<and>
         s1 = [] @ ''  0\<newline>TABLE\<newline>'' @ write_tags sample hd1 @
              concat (map (\<lambda>h. write_tags sample (the (entitydb (drawing two_layers) h)))
                (table_entries two_layers)) @ ''  0\<newline>ENDTAB\<newline>''"
    .
  with hd1 have "s1 = [] @ ''  0\<newline>TABLE\<newline>'' @ write_tags sample ?hd1 @
              concat (map (\<lambda>h. write_tags sample (the (entitydb (drawing two_layers) h)))
                (table_entries two_layers)) @ ''  0\<newline>ENDTAB\<newline>''"
    by (elim exE conjE) simp
  also have "\<dots> = ''  0\<newline>TABLE\<newline>  2\<newline>LAYER\<newline> 70\<newline>2\<newline>'' @
     ''  0\<newline>LAYER\<newline>  5\<newline>A\<newline>  2\<newline>0\<newline>'' @
     ''  0\<newline>LAYER\<newline>  5\<newline>B\<newline>  2\<newline>WALLS\<newline>'' @
     ''  0\<newline>ENDTAB\<newline>''"
    by (simp add: two_layers_def layer_record_def strtag_eval)
  finally show ?thesis using w by simp
qed

subsection \<open>Creating and removing\<close>

lemma iter_handles_irrelevant [simp]:
  "Table_iter C (t\<lparr>drawing := (drawing t)\<lparr>handles := k\<rparr>\<rparr>) = Table_iter C t"
  by (simp add: Table_iter_def Table_get_table_entry_wrapper_def)

lemma iter_store_entry:
  "h \<notin> set (table_entries t) \<Longrightarrow>
   Table_iter C (store_entry h x t) = Table_iter C t @ [wrap_entity C x]"
  by (auto simp: Table_iter_def Table_get_table_entry_wrapper_def store_entry_def)

lemma scan_resolved_Inl:
  "list_all (\<lambda>r. \<not> isl r) rs \<Longrightarrow> get_entry_scan n rs = Inl e \<Longrightarrow>
   e = ValueError [StrVal n] \<and> n \<notin> set (names_of rs)"
proof (induction rs)
  case Nil
  then show ?case by simp
next
  case (Cons r rs)
  then show ?case by (cases r) (auto split: if_splits)
qed


lemma scan_present:
  "list_all (\<lambda>r. \<not> isl r) rs \<Longrightarrow> n \<in> set (names_of rs) \<Longrightarrow>
   \<exists>x. get_entry_scan n rs = Inr x \<and> entry_name x = n"
proof (induction rs)
  case Nil
  then show ?case by simp
next
  case (Cons r rs)
  then show ?case by (cases r) auto
qed

lemma names_of_append [simp]: "names_of (rs @ rs') = names_of rs @ names_of rs'"
proof (induction rs)
  case Nil
  then show ?case by simp
next
  case (Cons r rs)
  then show ?case by (cases r) auto
qed

lemma contains_False_absent:
  assumes "all_resolve C t" "Table_contains C n t = Inr False"
  shows "n \<notin> set (member_names C t)"
proof -
  from assms(2) obtain e where "Table_get_entry C n t = Inl e"
    by (cases "Table_get_entry C n t") (auto simp: Table_contains_def Table_entry_exists_def)
  with assms(1) scan_resolved_Inl [of "Table_iter C t" n e] show ?thesis
    by (simp add: all_resolve_def Table_get_entry_def member_names_def)
qed


lemma present_contains_True:
  assumes "all_resolve C t" "n \<in> set (member_names C t)"
  shows "Table_contains C n t = Inr True"
proof -
  from assms scan_present [of "Table_iter C t" n]
  obtain x where "Table_get_entry C n t = Inr x"
    by (auto simp: all_resolve_def Table_get_entry_def member_names_def)
  then show ?thesis by (simp add: Table_contains_def Table_entry_exists_def)
qed

lemma create_Inr_D:
  assumes "Table_create C n a t = (Inr e, a', t')"
  shows "Table_contains C n t = Inr False"
    and "Table_new_entry C ((case a of None \<Rightarrow> Map.empty | Some a0 \<Rightarrow> a0)(''name'' \<mapsto> StrVal n)) t = (Inr e, t')"
proof -
  from assms show c: "Table_contains C n t = Inr False"
    by (cases "Table_contains C n t") (auto simp: Table_create_def split: bool.splits)
  with assms show "Table_new_entry C ((case a of None \<Rightarrow> Map.empty | Some a0 \<Rightarrow> a0)(''name'' \<mapsto> StrVal n)) t = (Inr e, t')"
    by (auto simp: Table_create_def Let_def split_beta intro: prod_eqI)
qed


lemma remove_success:
  assumes "Table_get_entry C n t = Inr x" "entry_handle x \<in> set (table_entries t)"
    "entitydb (drawing t) (entry_handle x) = Some y"
  shows "Table_remove C n t = (Inr (), removed (entry_handle x) t)"
  using assms by (simp add: Table_remove_def Table_remove_entry_def Let_def removed_def)

lemma wrapper_removed:
  "h' \<noteq> h \<Longrightarrow>
   Table_get_table_entry_wrapper C (removed h t) h' = Table_get_table_entry_wrapper C t h'"
  by (simp add: Table_get_table_entry_wrapper_def removed_def)



lemma factory_okD:
  "factory_ok C \<Longrightarrow> new_entity C k h a = Inr e \<Longrightarrow> a ''name'' = Some (StrVal n) \<Longrightarrow>
   entry_handle e = h \<and>
   (\<exists>w. wrap_entity C (entry_tags e) = Inr w \<and> entry_handle w = h \<and> entry_name w = n)"
  unfolding factory_ok_def by blast



lemma own_handles_D:
  "own_handles C t \<Longrightarrow> h \<in> set (table_entries t) \<Longrightarrow>
   \<exists>x. Table_get_table_entry_wrapper C t h = Inr x \<and> entry_handle x = h"
proof -
  assume "own_handles C t" "h \<in> set (table_entries t)"
  then have "case Table_get_table_entry_wrapper C t h of Inl e \<Rightarrow> False | Inr x \<Rightarrow> entry_handle x = h"
    by (simp add: own_handles_def list_all_iff)
  then show ?thesis by (cases "Table_get_table_entry_wrapper C t h") auto
qed

lemma own_handles_resolve: "own_handles C t \<Longrightarrow> all_resolve C t"
  by (auto simp: all_resolve_def Table_iter_def list_all_iff dest: own_handles_D)

lemma names_of_member:
  "f h = Inr y \<Longrightarrow> h \<in> set hs \<Longrightarrow> entry_name y \<in> set (names_of (map f hs))"
proof (induction hs)
  case Nil
  then show ?case by simp
next
  case (Cons a hs)
  then show ?case by (cases "f a") auto
qed

text \<open>
  Claim C9, as amended. In a table whose members are pairwise distinct handles, each
  resolving to an entry that reports its own handle, let \<open>h\<close> be the first member in the order of
  insertion whose entry is named \<open>n\<close>. Then \<^verbatim>\<open>get(n)\<close> is that entry and \<^verbatim>\<open>remove(n)\<close>
  returns, takes exactly \<open>h\<close> out of the members (the count falls by one), deletes
  exactly the record of \<open>h\<close>, and every other member resolves as before; so a later
  member of the same name is still found by \<^verbatim>\<open>n in table\<close>.
\<close>

theorem remove_takes_first_match:
  assumes dist: "distinct (table_entries t)"
    and own: "own_handles C t"
    and split: "table_entries t = pre @ h # post"
    and x: "Table_get_table_entry_wrapper C t h = Inr x" "entry_name x = n"
    and before: "\<forall>h'\<in>set pre. \<exists>y. Table_get_table_entry_wrapper C t h' = Inr y \<and> entry_name y \<noteq> n"
  shows "\<exists>t'. Table_get C n t = Inr x \<and> Table_remove C n t = (Inr (), t') \<and>
           table_entries t' = pre @ post \<and> Table_len t' + 1 = Table_len t \<and>
           entitydb (drawing t') = (entitydb (drawing t))(h := None) \<and>
           (\<forall>h'\<in>set (pre @ post).
              Table_get_table_entry_wrapper C t' h' = Table_get_table_entry_wrapper C t h') \<and>
           ((\<exists>h2\<in>set post. \<exists>y. Table_get_table_entry_wrapper C t h2 = Inr y \<and> entry_name y = n) \<longrightarrow>
              Table_contains C n t' = Inr True)"
proof -
  let ?f = "Table_get_table_entry_wrapper C t"
  from scan_found_I [OF before x, of post] split
  have get': "Table_get_entry C n t = Inr x" by (simp add: get_entry_scan_eq)
  then have get: "Table_get C n t = Inr x" by (simp add: Table_get_def)
  from split have mem: "h \<in> set (table_entries t)" by simp
  from own_handles_D [OF own mem] x have h: "entry_handle x = h" by simp
  from x(1) obtain y where y: "entitydb (drawing t) h = Some y" by (auto simp: wrapper_Inr)
  let ?t' = "removed h t"
  from dist split have notin: "h \<notin> set pre" "h \<notin> set post" by auto
  from remove_success [OF get'] mem y h have rem: "Table_remove C n t = (Inr (), ?t')" by simp
  from split notin have entries: "table_entries ?t' = pre @ post"
    by (simp add: removed_def remove1_append)
  from split entries have len: "Table_len ?t' + 1 = Table_len t" by (simp add: Table_len_def)
  have db: "entitydb (drawing ?t') = (entitydb (drawing t))(h := None)" by (simp add: removed_def)
  have same: "\<forall>h'\<in>set (pre @ post). Table_get_table_entry_wrapper C ?t' h' = ?f h'"
  proof
    fix h' assume "h' \<in> set (pre @ post)"
    with notin have "h' \<noteq> h" by auto
    then show "Table_get_table_entry_wrapper C ?t' h' = ?f h'" by (rule wrapper_removed)
  qed
  have later: "Table_contains C n ?t' = Inr True"
    if "\<exists>h2\<in>set post. \<exists>z. ?f h2 = Inr z \<and> entry_name z = n"
  proof -
    from that obtain h2 z where h2: "h2 \<in> set post" "?f h2 = Inr z" "entry_name z = n" by blast
    have iter: "Table_iter C ?t' = map ?f (pre @ post)"
      unfolding Table_iter_def entries using same by simp
    have "list_all (\<lambda>r. \<not> isl r) (map ?f (pre @ post))"
      using own_handles_resolve [OF own] split
      by (simp add: all_resolve_def Table_iter_def)
    then have "all_resolve C ?t'" by (simp add: all_resolve_def iter)
    moreover from names_of_member [of ?f h2 z "pre @ post"] h2
    have "n \<in> set (member_names C ?t')" by (simp add: member_names_def iter)
    ultimately show ?thesis by (rule present_contains_True)
  qed
  from get rem entries len db same later show ?thesis by blast
qed

lemma factory_ok_sample: "factory_ok sample"
  unfolding factory_ok_def
  by (auto simp: sample_new_entity_def sample_wrap_entity_def split: option.splits dxfvalue.splits)

lemma wrap_vport_record [simp]:
  "sample_wrap_entity (vport_record h n) =
     Inr \<lparr>entry_name = n, entry_handle = h, entry_tags = vport_record h n\<rparr>"
  by (simp add: sample_wrap_entity_def vport_record_def)

text \<open>Of two viewports named \<^verbatim>\<open>*ACTIVE\<close> the first is removed, the second stays.\<close>

theorem remove_takes_first_match_witness:
  "\<exists>t'. Table_get sample ''*ACTIVE'' two_viewports =
          Inr \<lparr>entry_name = ''*ACTIVE'', entry_handle = ''A'',
               entry_tags = vport_record ''A'' ''*ACTIVE''\<rparr> \<and>
        Table_remove sample ''*ACTIVE'' two_viewports = (Inr (), t') \<and>
        table_entries t' = [''B''] \<and> Table_len t' + 1 = Table_len two_viewports \<and>
        entitydb (drawing t') ''A'' = None \<and>
        entitydb (drawing t') ''B'' = Some (vport_record ''B'' ''*ACTIVE'') \<and>
        Table_contains sample ''*ACTIVE'' t' = Inr True"
proof -
  let ?x = "\<lparr>entry_name = ''*ACTIVE'', entry_handle = ''A'', entry_tags = vport_record ''A'' ''*ACTIVE''\<rparr>"
  have dist: "distinct (table_entries two_viewports)" by (simp add: two_viewports_def)
  have own: "own_handles sample two_viewports"
    by (simp add: own_handles_def Table_get_table_entry_wrapper_def two_viewports_def)
  have split: "table_entries two_viewports = [] @ ''A'' # [''B'']" by (simp add: two_viewports_def)
  have x: "Table_get_table_entry_wrapper sample two_viewports ''A'' = Inr ?x"
      "entry_name ?x = ''*ACTIVE''"
    by (simp_all add: Table_get_table_entry_wrapper_def two_viewports_def)
  have before: "\<forall>h'\<in>set []. \<exists>y. Table_get_table_entry_wrapper sample two_viewports h' = Inr y \<and>
      entry_name y \<noteq> ''*ACTIVE''"
    by simp
  have later: "\<exists>h2\<in>set [''B'']. \<exists>y. Table_get_table_entry_wrapper sample two_viewports h2 = Inr y \<and>
      entry_name y = ''*ACTIVE''"
    by (simp add: Table_get_table_entry_wrapper_def two_viewports_def)
  from remove_takes_first_match [OF dist own split x before] later
  obtain t' where t': "Table_get sample ''*ACTIVE'' two_viewports = Inr ?x"
      "Table_remove sample ''*ACTIVE'' two_viewports = (Inr (), t')"
      "table_entries t' = [] @ [''B'']" "Table_len t' + 1 = Table_len two_viewports"
      "entitydb (drawing t') = (entitydb (drawing two_viewports))(''A'' := None)"
      "Table_contains sample ''*ACTIVE'' t' = Inr True"
    by blast
  from t'(5) have "entitydb (drawing t') ''A'' = None"
      "entitydb (drawing t') ''B'' = Some (vport_record ''B'' ''*ACTIVE'')"
    by (simp_all add: two_viewports_def)
  with t' show ?thesis by simp
qed


subsection \<open>Members and the entity database\<close>

lemma live_handles [simp]:
  "members_live (t\<lparr>drawing := (drawing t)\<lparr>handles := k\<rparr>\<rparr>) = members_live t"
  by (simp add: members_live_def)

lemma live_header [simp]: "members_live (t\<lparr>table_header := x\<rparr>) = members_live t"
  by (simp add: members_live_def)

lemma live_store_entry: "members_live t \<Longrightarrow> members_live (store_entry h x t)"
  by (auto simp: members_live_def store_entry_def list_all_iff)

lemma live_add_entry: "members_live t \<Longrightarrow> members_live (snd (Table_add_entry C arg t))"
  by (cases arg)
     (auto simp: Table_add_entry_def live_store_entry split: prod.splits sum.splits)

lemma live_add_entries: "members_live t \<Longrightarrow> members_live (snd (add_entries C gs t))"
proof (induction gs arbitrary: t)
  case Nil
  then show ?case by simp
next
  case (Cons g gs)
  let ?r = "Table_add_entry C (TagsArg (extended_tags C g)) t"
  from Cons.prems have live: "members_live (snd ?r)" by (rule live_add_entry)
  show ?case
  proof (cases "fst ?r")
    case (Inl e)
    with live show ?thesis by (simp add: split_beta)
  next
    case (Inr u)
    with Cons.IH [OF live] show ?thesis by (simp add: split_beta)
  qed
qed

lemma live_new_entry: "members_live t \<Longrightarrow> members_live (snd (Table_new_entry C a t))"
  by (cases "new_entity C (dxfname t) (handle_of C (handles (drawing t))) a")
     (simp_all add: new_entry_failure new_entry_success live_store_entry)

lemma live_create: "members_live t \<Longrightarrow> members_live (snd (snd (Table_create C n a t)))"
  by (auto simp: Table_create_def Let_def split_beta live_new_entry split: sum.splits bool.splits)

lemma live_viewport_create:
  "members_live t \<Longrightarrow> members_live (snd (snd (ViewportTable_create C n a t)))"
  by (simp add: ViewportTable_create_def Let_def split_beta live_new_entry)

lemma live_build:
  "members_live t \<Longrightarrow> members_live (snd (Table_build_table_entries C tgs t))"
  by (auto simp: Table_build_table_entries_def Let_def live_add_entries split: sum.splits)

lemma live_init: "Table_init C tgs d = Inr t \<Longrightarrow> members_live t"
proof -
  assume init: "Table_init C tgs d = Inr t"
  then obtain tg where tg: "py_index tgs 1 = Inr tg"
    by (cases "py_index tgs 1") (auto simp: Table_init_def)
  let ?t0 = "\<lparr>dxfname = tagval tg, drawing = d, table_entries = [], table_header = None\<rparr>"
  have "members_live ?t0" by (simp add: members_live_def)
  then have "members_live (snd (Table_build_table_entries C tgs ?t0))" by (rule live_build)
  moreover from init tg have "t = snd (Table_build_table_entries C tgs ?t0)"
    by (auto simp: Table_init_def split: prod.splits sum.splits)
  ultimately show ?thesis by simp
qed

lemma remove_cases:
  "Table_remove C n t = (r, t') \<Longrightarrow>
     (t' = t \<and> r \<noteq> Inr ()) \<or>
     (\<exists>x. Table_get C n t = Inr x \<and> entry_handle x \<in> set (table_entries t) \<and>
          ((r = Inl (KeyError (entry_handle x)) \<and>
            t' = t\<lparr>table_entries := remove1 (entry_handle x) (table_entries t)\<rparr>) \<or>
           (r = Inr () \<and> t' = removed (entry_handle x) t)))"
  by (auto simp: Table_remove_def Table_remove_entry_def Table_get_def Let_def removed_def
      split: sum.splits if_splits option.splits)

lemma live_removed:
  "members_live t \<Longrightarrow> distinct (table_entries t) \<Longrightarrow> members_live (removed h t)"
  by (auto simp: members_live_def removed_def list_all_iff)

lemma live_remove1:
  "members_live t \<Longrightarrow> members_live (t\<lparr>table_entries := remove1 h (table_entries t)\<rparr>)"
  by (auto simp: members_live_def list_all_iff dest: notin_set_remove1)


lemma entries_removed [simp]: "table_entries (removed h t) = remove1 h (table_entries t)"
  by (simp add: removed_def)

text \<open>
  Claim C8, as amended. That every member has a record in the entity database is kept
  by \<^verbatim>\<open>new_entry\<close> and by \<^verbatim>\<open>create\<close> of both classes, whether they return or raise, and
  holds of every table that the constructor builds from tags. \<^verbatim>\<open>remove\<close> keeps it, and
  keeps the members pairwise distinct, when no handle is a member twice. Whenever
  \<^verbatim>\<open>remove\<close> returns, it has taken the first occurrence of the handle of the entry that
  \<^verbatim>\<open>get\<close> finds out of the members and deleted the record of that handle in the same
  call.
\<close>

theorem members_stay_live:
  "(members_live t \<longrightarrow>
      members_live (snd (Table_new_entry C a t)) \<and>
      members_live (snd (snd (Table_create C n att t))) \<and>
      members_live (snd (snd (ViewportTable_create C n att t)))) \<and>
   (Table_init C tgs d = Inr t0 \<longrightarrow> members_live t0) \<and>
   (members_live t \<longrightarrow> distinct (table_entries t) \<longrightarrow>
      members_live (snd (Table_remove C n t)) \<and>
      distinct (table_entries (snd (Table_remove C n t)))) \<and>
   (Table_remove C n t = (Inr (), t') \<longrightarrow>
      (\<exists>x. Table_get C n t = Inr x \<and>
           table_entries t' = remove1 (entry_handle x) (table_entries t) \<and>
           entitydb (drawing t') = (entitydb (drawing t))(entry_handle x := None)))"
proof (intro conjI impI)
  assume "members_live t"
  then show "members_live (snd (Table_new_entry C a t))"
    and "members_live (snd (snd (Table_create C n att t)))"
    and "members_live (snd (snd (ViewportTable_create C n att t)))"
    by (rule live_new_entry, rule live_create, rule live_viewport_create)
next
  assume "Table_init C tgs d = Inr t0"
  then show "members_live t0" by (rule live_init)
next
  assume live: "members_live t" and dist: "distinct (table_entries t)"
  obtain r t2 where rem: "Table_remove C n t = (r, t2)" by (cases "Table_remove C n t")
  from remove_cases [OF rem] live dist
  have "members_live t2 \<and> distinct (table_entries t2)"
    by (auto simp: live_removed live_remove1 entries_removed)
  with rem show "members_live (snd (Table_remove C n t))"
    and "distinct (table_entries (snd (Table_remove C n t)))"
    by simp_all
next
  assume "Table_remove C n t = (Inr (), t')"
  from remove_cases [OF this]
  show "\<exists>x. Table_get C n t = Inr x \<and>
           table_entries t' = remove1 (entry_handle x) (table_entries t) \<and>
           entitydb (drawing t') = (entitydb (drawing t))(entry_handle x := None)"
    by (auto simp: removed_def)
qed

text \<open>The table of two layers: a create and a remove.\<close>

theorem members_stay_live_witness:
  "members_live two_layers \<and> distinct (table_entries two_layers) \<and>
   members_live (snd (snd (Table_create sample ''DOORS'' None two_layers))) \<and>
   members_live (snd (Table_remove sample ''WALLS'' two_layers)) \<and>
   distinct (table_entries (snd (Table_remove sample ''WALLS'' two_layers)))"
proof -
  have live: "members_live two_layers" by (simp add: members_live_def two_layers_def)
  have dist: "distinct (table_entries two_layers)" by (simp add: two_layers_def)
  from members_stay_live [where t = two_layers and C = sample and n = "''DOORS''" and att = None]
    live
  have c: "members_live (snd (snd (Table_create sample ''DOORS'' None two_layers)))" by blast
  from members_stay_live [where t = two_layers and C = sample and n = "''WALLS''"] live dist
  have "members_live (snd (Table_remove sample ''WALLS'' two_layers)) \<and>
      distinct (table_entries (snd (Table_remove sample ''WALLS'' two_layers)))"
    by blast
  with live dist c show ?thesis by simp
qed

text \<open>
  The claim as it was stated fails for \<^verbatim>\<open>remove\<close> on a table in which a handle is a
  member twice. The constructor builds such a table from a section whose two entries
  carry the same handle; every member has a record then. \<^verbatim>\<open>remove('WALLS')\<close> returns,
  takes one of the two occurrences out of the members and deletes the record: the
  handle that is left among the members has none.
\<close>

theorem remove_repeated_handle_counterexample:
  "Table_init sample twice_stream empty_drawing = Inr twice_table \<and>
   members_live twice_table \<and>
   fst (Table_remove sample ''WALLS'' twice_table) = Inr () \<and>
   table_entries (snd (Table_remove sample ''WALLS'' twice_table)) = [''A''] \<and>
   entitydb (drawing (snd (Table_remove sample ''WALLS'' twice_table))) ''A'' = None \<and>
   \<not> members_live (snd (Table_remove sample ''WALLS'' twice_table))"
proof -
  have groups: "TagGroups twice_stream =
      [[DXFTag 0 (StrVal ''TABLE''), DXFTag 2 (StrVal ''LAYER''), DXFTag 70 (IntVal 2)],
       [DXFTag 0 (StrVal ''LAYER''), DXFTag 5 (StrVal ''A''), DXFTag 2 (StrVal ''0'')],
       [DXFTag 0 (StrVal ''LAYER''), DXFTag 5 (StrVal ''A''), DXFTag 2 (StrVal ''WALLS'')],
       [DXFTag 0 (StrVal ''ENDTAB'')]]"
    by (simp add: TagGroups_def twice_stream_def)
  have index: "py_index twice_stream 1 = Inr (DXFTag 2 (StrVal ''LAYER''))"
    by (simp add: py_index_def twice_stream_def)
  have names: "getname (TagGroups twice_stream) 0 = Inr (StrVal ''TABLE'')"
      "getname (TagGroups twice_stream) (- 1) = Inr (StrVal ''ENDTAB'')"
    by (simp_all add: groups getname_def py_index_def)
  have first: "py_index (TagGroups twice_stream) 0 =
      Inr [DXFTag 0 (StrVal ''TABLE''), DXFTag 2 (StrVal ''LAYER''), DXFTag 70 (IntVal 2)]"
    by (simp add: groups py_index_def)
  have entries: "butlast (drop (Suc 0) (TagGroups twice_stream)) =
      [[DXFTag 0 (StrVal ''LAYER''), DXFTag 5 (StrVal ''A''), DXFTag 2 (StrVal ''0'')],
       [DXFTag 0 (StrVal ''LAYER''), DXFTag 5 (StrVal ''A''), DXFTag 2 (StrVal ''WALLS'')]]"
    by (simp add: groups)
  have init: "Table_init sample twice_stream empty_drawing = Inr twice_table"
    by (simp add: Table_init_def index Table_build_table_entries_def Let_def names first entries
        Table_add_entry_def sample_gethandle_def store_entry_def
        empty_drawing_def twice_table_def layer_record_def)
  have live: "members_live twice_table" by (simp add: members_live_def twice_table_def)
  have get: "Table_get_entry sample ''WALLS'' twice_table =
      Inr \<lparr>entry_name = ''WALLS'', entry_handle = ''A'', entry_tags = layer_record ''A'' ''WALLS''\<rparr>"
    by (simp add: Table_get_entry_def Table_iter_def Table_get_table_entry_wrapper_def
        twice_table_def)
  have "Table_remove sample ''WALLS'' twice_table = (Inr (), removed ''A'' twice_table)"
    using remove_success [OF get, of "layer_record ''A'' ''WALLS''"]
    by (simp add: twice_table_def)
  with init live show ?thesis
    by (simp add: removed_def twice_table_def members_live_def)
qed

subsection \<open>Unique names\<close>

lemma create_existing:
  assumes "all_resolve C t" "n \<in> set (member_names C t)"
  shows "Table_create C n a t = (Inl (ValueError [dxfname t, StrVal n]), a, t)"
  using present_contains_True [OF assms] by (simp add: Table_create_def)

lemma fresh_next: "handles_fresh C t \<Longrightarrow> handle_of C (handles (drawing t)) \<notin> set (table_entries t)"
  by (simp add: handles_fresh_def)

lemma fresh_advance:
  "handles_fresh C t \<Longrightarrow>
   handles_fresh C (t\<lparr>drawing := (drawing t)\<lparr>handles := Suc (handles (drawing t))\<rparr>\<rparr>)"
  by (simp add: handles_fresh_def)

lemma fresh_store:
  assumes "inj (handle_of C)" "handles_fresh C t"
  shows "handles_fresh C (store_entry (handle_of C (handles (drawing t))) x
           (t\<lparr>drawing := (drawing t)\<lparr>handles := Suc (handles (drawing t))\<rparr>\<rparr>))"
proof -
  have "handle_of C k \<noteq> handle_of C (handles (drawing t))" if "Suc (handles (drawing t)) \<le> k" for k
    using that assms(1) by (auto dest: injD)
  with assms(2) show ?thesis
    by (auto simp: handles_fresh_def store_entry_def)
qed

lemma create_success_state:
  assumes factory: "factory_ok C"
    and resolve: "all_resolve C t"
    and fresh: "handle_of C (handles (drawing t)) \<notin> set (table_entries t)"
    and create: "Table_create C n a t = (Inr e, a', t1)"
  shows "t1 = store_entry (handle_of C (handles (drawing t))) (entry_tags e)
                (t\<lparr>drawing := (drawing t)\<lparr>handles := Suc (handles (drawing t))\<rparr>\<rparr>)"
    and "n \<notin> set (member_names C t)"
    and "member_names C t1 = member_names C t @ [n]"
    and "all_resolve C t1"
proof -
  let ?a = "(case a of None \<Rightarrow> Map.empty | Some a0 \<Rightarrow> a0)(''name'' \<mapsto> StrVal n)"
  let ?h = "handle_of C (handles (drawing t))"
  let ?t0 = "t\<lparr>drawing := (drawing t)\<lparr>handles := Suc (handles (drawing t))\<rparr>\<rparr>"
  from create_Inr_D [OF create] have no: "Table_contains C n t = Inr False"
    and new: "Table_new_entry C ?a t = (Inr e, t1)" .
  from new_entry_Inr_D [OF new] have made: "new_entity C (dxfname t) ?h ?a = Inr e" .
  have "?a ''name'' = Some (StrVal n)" by simp
  from factory_okD [OF factory made this] obtain w where handle: "entry_handle e = ?h"
    and w: "wrap_entity C (entry_tags e) = Inr w" "entry_handle w = ?h" "entry_name w = n"
    by blast
  from made new show t1: "t1 = store_entry ?h (entry_tags e) ?t0"
    by (simp add: new_entry_success handle)
  from contains_False_absent [OF resolve no] show "n \<notin> set (member_names C t)" .
  from fresh have fresh0: "?h \<notin> set (table_entries ?t0)" by simp
  have iter1: "Table_iter C t1 = Table_iter C t @ [Inr w]"
    unfolding t1 using iter_store_entry [OF fresh0, of C "entry_tags e"] w by simp
  then show "member_names C t1 = member_names C t @ [n]"
    by (simp add: member_names_def w)
  from iter1 resolve show "all_resolve C t1" by (simp add: all_resolve_def)
qed

lemma create_keeps_inv:
  assumes factory: "factory_ok C" and inj: "inj (handle_of C)" and inv: "names_inv C t"
  shows "names_inv C (snd (snd (Table_create C n a t)))"
proof -
  let ?a = "(case a of None \<Rightarrow> Map.empty | Some a0 \<Rightarrow> a0)(''name'' \<mapsto> StrVal n)"
  let ?h = "handle_of C (handles (drawing t))"
  let ?t0 = "t\<lparr>drawing := (drawing t)\<lparr>handles := Suc (handles (drawing t))\<rparr>\<rparr>"
  obtain r a' t1 where create: "Table_create C n a t = (r, a', t1)"
    by (cases "Table_create C n a t")
  from inv have resolve: "all_resolve C t" and fresh: "handles_fresh C t"
    and dist: "distinct (member_names C t)"
    by (simp_all add: names_inv_def)
  have "names_inv C t1"
  proof (cases r)
    case (Inr e)
    from create_success_state [OF factory resolve fresh_next [OF fresh] create [unfolded Inr]]
      fresh_store [OF inj fresh, of "entry_tags e"] dist
    show ?thesis by (simp add: names_inv_def)
  next
    case (Inl err)
    show ?thesis
    proof (cases "Table_contains C n t = Inr False")
      case True
      with create Inl have new: "Table_new_entry C ?a t = (Inl err, t1)"
        by (auto simp: Table_create_def Let_def split_beta intro: prod_eqI)
      then have "new_entity C (dxfname t) ?h ?a = Inl err"
        by (cases "new_entity C (dxfname t) ?h ?a")
           (simp_all add: new_entry_failure new_entry_success)
      with new have "t1 = ?t0" by (simp add: new_entry_failure)
      with inv fresh_advance [OF fresh] show ?thesis
        by (simp add: names_inv_def all_resolve_def member_names_def)
    next
      case False
      with create have "t1 = t"
        by (cases "Table_contains C n t") (auto simp: Table_create_def split: bool.splits)
      with inv show ?thesis by simp
    qed
  qed
  with create show ?thesis by simp
qed

lemma create_all_keeps_inv:
  assumes "factory_ok C" "inj (handle_of C)"
  shows "names_inv C t \<Longrightarrow> names_inv C (create_all C calls t)"
proof (induction calls arbitrary: t)
  case Nil
  then show ?case by simp
next
  case (Cons c calls)
  obtain n a where c: "c = (n, a)" by (cases c)
  from create_keeps_inv [OF assms Cons.prems, of n a]
  have "names_inv C (snd (snd (Table_create C n a t)))" .
  from Cons.IH [OF this] show ?case by (simp add: c split_beta)
qed


text \<open>
  Claim C1. In a table whose members all resolve, \<^verbatim>\<open>create(n, attribs)\<close> with the name
  of a member raises ValueError and leaves the table and the caller's mapping as they
  were. With a factory that keeps its contract and an allocator that never issues a
  handle twice, every sequence of \<^verbatim>\<open>create\<close> calls, started in a state where every
  member resolves, no handle still to be issued is a member and the names are pairwise
  distinct, ends in such a state: no two members share a name. In particular a second
  \<^verbatim>\<open>create\<close> with the name of one that returned raises ValueError and changes nothing.
\<close>

theorem create_keeps_names_unique:
  "(all_resolve C t \<longrightarrow> n \<in> set (member_names C t) \<longrightarrow>
      Table_create C n a t = (Inl (ValueError [dxfname t, StrVal n]), a, t)) \<and>
   (factory_ok C \<longrightarrow> inj (handle_of C) \<longrightarrow> names_inv C t \<longrightarrow>
      names_inv C (create_all C calls t) \<and>
      distinct (member_names C (create_all C calls t))) \<and>
   (factory_ok C \<longrightarrow> names_inv C t \<longrightarrow> Table_create C n a t = (Inr e, a', t1) \<longrightarrow>
      Table_create C n b t1 = (Inl (ValueError [dxfname t1, StrVal n]), b, t1))"
proof (intro conjI impI)
  assume "all_resolve C t" "n \<in> set (member_names C t)"
  then show "Table_create C n a t = (Inl (ValueError [dxfname t, StrVal n]), a, t)"
    by (rule create_existing)
next
  assume "factory_ok C" "inj (handle_of C)" "names_inv C t"
  then show inv: "names_inv C (create_all C calls t)" by (rule create_all_keeps_inv)
  then show "distinct (member_names C (create_all C calls t))" by (simp add: names_inv_def)
next
  assume factory: "factory_ok C" and inv: "names_inv C t"
    and create: "Table_create C n a t = (Inr e, a', t1)"
  from inv have resolve: "all_resolve C t" and fresh: "handles_fresh C t"
    by (simp_all add: names_inv_def)
  from create_success_state(3,4) [OF factory resolve fresh_next [OF fresh] create]
  have "all_resolve C t1" "n \<in> set (member_names C t1)" by simp_all
  then show "Table_create C n b t1 = (Inl (ValueError [dxfname t1, StrVal n]), b, t1)"
    by (rule create_existing)
qed

lemma hex_digit_inj: "a < 16 \<Longrightarrow> b < 16 \<Longrightarrow> hex_digit a = hex_digit b \<Longrightarrow> a = b"
proof -
  have "distinct ''0123456789ABCDEF''" by simp
  moreover have "length ''0123456789ABCDEF'' = 16" by simp
  ultimately show "a < 16 \<Longrightarrow> b < 16 \<Longrightarrow> hex_digit a = hex_digit b \<Longrightarrow> a = b"
    unfolding hex_digit_def by (metis nth_eq_iff_index_eq)
qed

lemma to_hex_unfold:
  "to_hex n = (if n < 16 then [hex_digit n] else to_hex (n div 16) @ [hex_digit (n mod 16)])"
  by (rule to_hex.simps)

lemma to_hex_nonempty: "to_hex n \<noteq> []"
  by (subst to_hex_unfold) simp

lemma to_hex_inj: "to_hex m = to_hex n \<Longrightarrow> m = n"
proof (induction m arbitrary: n rule: to_hex.induct)
  case (1 m)
  show ?case
  proof (cases "m < 16")
    case True
    then have m: "to_hex m = [hex_digit m]" by (subst to_hex_unfold) simp
    show ?thesis
    proof (cases "n < 16")
      case n: True
      then have "to_hex n = [hex_digit n]" by (subst to_hex_unfold) simp
      with m "1.prems" True n show ?thesis by (simp add: hex_digit_inj)
    next
      case False
      then have "to_hex n = to_hex (n div 16) @ [hex_digit (n mod 16)]"
        by (subst to_hex_unfold) simp
      with m "1.prems" to_hex_nonempty [of "n div 16"] show ?thesis by simp
    qed
  next
    case False
    then have m: "to_hex m = to_hex (m div 16) @ [hex_digit (m mod 16)]"
      by (subst to_hex_unfold) simp
    show ?thesis
    proof (cases "n < 16")
      case True
      then have "to_hex n = [hex_digit n]" by (subst to_hex_unfold) simp
      with m "1.prems" to_hex_nonempty [of "m div 16"] show ?thesis by simp
    next
      case n: False
      then have "to_hex n = to_hex (n div 16) @ [hex_digit (n mod 16)]"
        by (subst to_hex_unfold) simp
      with m "1.prems" have eq: "to_hex (m div 16) = to_hex (n div 16)"
        and d: "hex_digit (m mod 16) = hex_digit (n mod 16)"
        by simp_all
      from "1.IH" [OF False eq] have "m div 16 = n div 16" .
      moreover from d have "m mod 16 = n mod 16" by (simp add: hex_digit_inj)
      ultimately show ?thesis by (metis div_mult_mod_eq)
    qed
  qed
qed

lemma inj_to_hex: "inj to_hex"
  by (rule injI) (rule to_hex_inj)


lemma names_inv_two_layers: "names_inv sample two_layers"
proof -
  have a: "to_hex 10 = ''A''" and b: "to_hex 11 = ''B''" by (simp_all add: hex_digit_def)
  have "to_hex k \<notin> set (table_entries two_layers)" if "12 \<le> k" for k
  proof
    assume "to_hex k \<in> set (table_entries two_layers)"
    then have "to_hex k = to_hex 10 \<or> to_hex k = to_hex 11"
      unfolding a b by (simp add: two_layers_def)
    then have "k = 10 \<or> k = 11" using to_hex_inj by blast
    with that show False by simp
  qed
  then have "handles_fresh sample two_layers"
    by (simp add: handles_fresh_def two_layers_def)
  moreover have "all_resolve sample two_layers" "distinct (member_names sample two_layers)"
    by (simp_all add: all_resolve_def member_names_def Table_iter_def
        Table_get_table_entry_wrapper_def two_layers_def)
  ultimately show ?thesis by (simp add: names_inv_def)
qed

text \<open>The table of two layers: \<^verbatim>\<open>WALLS\<close> is refused, and of three calls that name
  \<^verbatim>\<open>DOORS\<close> twice and the member \<^verbatim>\<open>0\<close> once the names stay distinct.\<close>

theorem create_keeps_names_unique_witness:
  "Table_create sample ''WALLS'' (Some [''color'' \<mapsto> IntVal 7]) two_layers =
     (Inl (ValueError [StrVal ''LAYER'', StrVal ''WALLS'']), Some [''color'' \<mapsto> IntVal 7], two_layers) \<and>
   distinct (member_names sample
     (create_all sample [(''DOORS'', None), (''DOORS'', None), (''0'', None)] two_layers))"
proof -
  note inst = create_keeps_names_unique [where C = sample and t = two_layers]
  have resolve: "all_resolve sample two_layers" and present: "''WALLS'' \<in> set (member_names sample two_layers)"
    by (simp_all add: all_resolve_def member_names_def Table_iter_def
        Table_get_table_entry_wrapper_def two_layers_def)
  from inst [where n = "''WALLS''" and a = "Some [''color'' \<mapsto> IntVal 7]",
      THEN conjunct1, THEN mp, THEN mp, OF resolve present]
  have failed: "Table_create sample ''WALLS'' (Some [''color'' \<mapsto> IntVal 7]) two_layers =
     (Inl (ValueError [StrVal ''LAYER'', StrVal ''WALLS'']), Some [''color'' \<mapsto> IntVal 7], two_layers)"
    by (simp add: two_layers_def)
  have inj: "inj (handle_of sample)" by (simp add: inj_to_hex)
  from inst [where calls = "[(''DOORS'', None), (''DOORS'', None), (''0'', None)]",
      THEN conjunct2, THEN conjunct1, THEN mp, THEN mp, THEN mp,
      OF factory_ok_sample inj names_inv_two_layers]
  have "distinct (member_names sample
     (create_all sample [(''DOORS'', None), (''DOORS'', None), (''0'', None)] two_layers))"
    by simp
  with failed show ?thesis by simp
qed

subsection \<open>Removal and the handles of the members\<close>

text \<open>
  The tables of claim C9 are those that \<^verbatim>\<open>ViewportTable.create\<close> builds: with a factory
  that keeps its contract and an allocator that never issues a handle twice, a call keeps
  the members pairwise distinct, each resolving to an entry that reports its own handle,
  and no handle still to be issued among them, whether it returns or raises.
\<close>

lemma wrapper_handles_irrelevant [simp]:
  "Table_get_table_entry_wrapper C (t\<lparr>drawing := (drawing t)\<lparr>handles := k\<rparr>\<rparr>) h =
   Table_get_table_entry_wrapper C t h"
  by (simp add: Table_get_table_entry_wrapper_def)

lemma wrapper_store_entry:
  "Table_get_table_entry_wrapper C (store_entry h x t) h' =
     (if h' = h then wrap_entity C x else Table_get_table_entry_wrapper C t h')"
  by (simp add: Table_get_table_entry_wrapper_def store_entry_def)

lemma viewport_create_keeps_handles:
  assumes factory: "factory_ok C" and inj: "inj (handle_of C)"
    and dist: "distinct (table_entries t)" and own: "own_handles C t"
    and fresh: "handles_fresh C t"
  shows "distinct (table_entries (snd (snd (ViewportTable_create C n a t)))) \<and>
         own_handles C (snd (snd (ViewportTable_create C n a t))) \<and>
         handles_fresh C (snd (snd (ViewportTable_create C n a t)))"
proof -
  let ?a = "(case a of None \<Rightarrow> Map.empty | Some a0 \<Rightarrow> a0)(''name'' \<mapsto> StrVal n)"
  let ?h = "handle_of C (handles (drawing t))"
  let ?t0 = "t\<lparr>drawing := (drawing t)\<lparr>handles := Suc (handles (drawing t))\<rparr>\<rparr>"
  have create: "snd (snd (ViewportTable_create C n a t)) = snd (Table_new_entry C ?a t)"
    by (simp add: ViewportTable_create_def Let_def split_beta)
  from own have own0: "own_handles C ?t0" by (simp add: own_handles_def)
  show ?thesis
  proof (cases "new_entity C (dxfname t) ?h ?a")
    case (Inl err)
    with dist own0 fresh_advance [OF fresh] show ?thesis
      unfolding create by (simp add: new_entry_failure)
  next
    case (Inr e)
    have "?a ''name'' = Some (StrVal n)" by simp
    from factory_okD [OF factory Inr this] obtain w where handle: "entry_handle e = ?h"
      and w: "wrap_entity C (entry_tags e) = Inr w" "entry_handle w = ?h"
      by blast
    let ?t1 = "store_entry ?h (entry_tags e) ?t0"
    from Inr handle have t1: "snd (Table_new_entry C ?a t) = ?t1"
      by (simp add: new_entry_success)
    from fresh_next [OF fresh] have notin: "?h \<notin> set (table_entries t)" .
    with dist have d1: "distinct (table_entries ?t1)" by simp
    have o1: "own_handles C ?t1"
      using own notin w
      by (auto simp: own_handles_def list_all_iff wrapper_store_entry)
    from d1 o1 fresh_store [OF inj fresh, of "entry_tags e"] show ?thesis
      unfolding create t1 by simp
  qed
qed

text \<open>
  Claim C9 as it was stated, for every table with two members of one name, fails on the
  table in which a handle is a member twice: both members resolve to the entry named
  \<^verbatim>\<open>WALLS\<close>; \<^verbatim>\<open>remove('WALLS')\<close> returns and takes the first of them out of the
  members, and the later member of the same name is left without a record, so that
  resolving it, and with it \<^verbatim>\<open>'WALLS' in table\<close>, raises KeyError.
\<close>

lemma remove_twice_table:
  "Table_remove sample ''WALLS'' twice_table = (Inr (), removed ''A'' twice_table)"
proof -
  have get: "Table_get_entry sample ''WALLS'' twice_table =
      Inr \<lparr>entry_name = ''WALLS'', entry_handle = ''A'', entry_tags = layer_record ''A'' ''WALLS''\<rparr>"
    by (simp add: Table_get_entry_def Table_iter_def Table_get_table_entry_wrapper_def
        twice_table_def)
  from remove_success [OF get, of "layer_record ''A'' ''WALLS''"] show ?thesis
    by (simp add: twice_table_def)
qed

theorem remove_leaves_later_namesake_dead_counterexample:
  "Table_iter sample twice_table =
     [Inr \<lparr>entry_name = ''WALLS'', entry_handle = ''A'', entry_tags = layer_record ''A'' ''WALLS''\<rparr>,
      Inr \<lparr>entry_name = ''WALLS'', entry_handle = ''A'', entry_tags = layer_record ''A'' ''WALLS''\<rparr>] \<and>
   fst (Table_remove sample ''WALLS'' twice_table) = Inr () \<and>
   table_entries (snd (Table_remove sample ''WALLS'' twice_table)) = [''A''] \<and>
   Table_iter sample (snd (Table_remove sample ''WALLS'' twice_table)) = [Inl (KeyError ''A'')] \<and>
   Table_contains sample ''WALLS'' (snd (Table_remove sample ''WALLS'' twice_table)) =
     Inl (KeyError ''A'')"
  by (simp add: remove_twice_table)
     (simp add: table_defs removed_def twice_table_def)

end
